theory Spec2Isabelle
  imports Main "HOL-Library.Sublist" "HOL-Library.AList"
begin

section \<open>Go strings and the standard-library helpers the guard uses\<close>

text \<open>
  A Go \<^verbatim>\<open>string\<close> is a sequence of bytes and \<^verbatim>\<open>len\<close> counts bytes, so a string is a
  \<^typ>\<open>string\<close> (a list of 8-bit characters) and \<^verbatim>\<open>len\<close> is \<^const>\<open>length\<close>.
\<close>

definition HasPrefix :: "string \<Rightarrow> string \<Rightarrow> bool" where
  \<comment> \<open>\<^verbatim>\<open>strings.HasPrefix(s, prefix)\<close>:
      \<^verbatim>\<open>len(s) >= len(prefix) && s[:len(prefix)] == prefix\<close>\<close>
  "HasPrefix s pre = (length s \<ge> length pre \<and> take (length pre) s = pre)"

fun Contains :: "string \<Rightarrow> string \<Rightarrow> bool" where
  \<comment> \<open>\<^verbatim>\<open>strings.Contains(s, substr)\<close>: \<^verbatim>\<open>substr\<close> occurs at some offset of \<^verbatim>\<open>s\<close>\<close>
  "Contains [] sub = (sub = [])"
| "Contains (c # s) sub = (HasPrefix (c # s) sub \<or> Contains s sub)"

subsection \<open>The three anchored regular expressions\<close>

text \<open>
  The guard compiles three patterns, all of the shape \<^verbatim>\<open>^ ... $\<close>. Between the anchors
  they use only literal text, a bracket class repeated a fixed number of times
  (\<^verbatim>\<open>\d{4}\<close>, \<^verbatim>\<open>[a-f0-9]{8}\<close>) and a bracket class repeated once or more
  (\<^verbatim>\<open>[a-zA-Z0-9_-]+\<close>). Go's \<^verbatim>\<open>$\<close> without the multi-line flag matches at the end of
  the text only, so \<^verbatim>\<open>MatchString\<close> on an anchored pattern decides whether the whole
  string matches. A bracket class is a list of inclusive byte ranges; every range of
  the three patterns is ASCII, so no byte of a multi-byte rune is in a class.
\<close>

type_synonym char_class = "(char \<times> char) list"

definition in_class :: "char_class \<Rightarrow> char \<Rightarrow> bool" where
  "in_class cls c =
     list_ex (\<lambda>(lo, hi). (of_char lo :: nat) \<le> of_char c \<and> (of_char c :: nat) \<le> of_char hi) cls"

datatype item =
    Lit string              \<comment> \<open>literal text\<close>
  | Rep char_class nat      \<comment> \<open>\<^verbatim>\<open>[...]{n}\<close>\<close>
  | Plus char_class         \<comment> \<open>\<^verbatim>\<open>[...]+\<close>\<close>

fun MatchString :: "item list \<Rightarrow> string \<Rightarrow> bool" where
  \<comment> \<open>whole-string match of \<^verbatim>\<open>^\<close> items \<^verbatim>\<open>$\<close>\<close>
  "MatchString [] s = (s = [])"
| "MatchString (Lit l # r) s = (HasPrefix s l \<and> MatchString r (drop (length l) s))"
| "MatchString (Rep cls n # r) s =
     (length s \<ge> n \<and> list_all (in_class cls) (take n s) \<and> MatchString r (drop n s))"
| "MatchString (Plus cls # r) s =
     list_ex (\<lambda>k. list_all (in_class cls) (take k s) \<and> MatchString r (drop k s))
       [1..<Suc (length s)]"

definition digit_class :: char_class where
  \<comment> \<open>\<^verbatim>\<open>\d\<close>: the ASCII digits\<close>
  "digit_class = [(CHR ''0'', CHR ''9'')]"

definition DatabaseNameRegex :: "item list" where
  \<comment> \<open>\<^verbatim>\<open>^[a-zA-Z0-9_-]+$\<close>\<close>
  "DatabaseNameRegex =
     [Plus [(CHR ''a'', CHR ''z''), (CHR ''A'', CHR ''Z''), (CHR ''0'', CHR ''9''),
            (CHR ''_'', CHR ''_''), (CHR ''-'', CHR ''-'')]]"

definition TableNameRegex :: "item list" where
  \<comment> \<open>\<^verbatim>\<open>^[a-zA-Z0-9_.-]+$\<close>\<close>
  "TableNameRegex =
     [Plus [(CHR ''a'', CHR ''z''), (CHR ''A'', CHR ''Z''), (CHR ''0'', CHR ''9''),
            (CHR ''_'', CHR ''_''), (CHR ''.'', CHR ''.''), (CHR ''-'', CHR ''-'')]]"

definition BackupIDRegex :: "item list" where
  \<comment> \<open>\<^verbatim>\<open>^backup-\d{4}-\d{2}-\d{2}-\d{2}-\d{2}-\d{2}-[a-f0-9]{8}$\<close>\<close>
  "BackupIDRegex =
     [Lit ''backup-'', Rep digit_class 4, Lit ''-'', Rep digit_class 2, Lit ''-'',
      Rep digit_class 2, Lit ''-'', Rep digit_class 2, Lit ''-'', Rep digit_class 2,
      Lit ''-'', Rep digit_class 2, Lit ''-'',
      Rep [(CHR ''a'', CHR ''f''), (CHR ''0'', CHR ''9'')] 8]"

subsection \<open>Formatting integers\<close>

text \<open>
  Go's \<^verbatim>\<open>int\<close> and \<^verbatim>\<open>int64\<close> are modelled as \<^typ>\<open>int\<close>. The program compares, prints
  and takes remainders of them, which cannot overflow; where the library multiplies, adds
  or subtracts (\<^verbatim>\<open>UnixNano\<close>, \<^verbatim>\<open>Sub\<close>), the result is wrapped to 64 bits.
\<close>

definition wrap64 :: "int \<Rightarrow> int" where
  \<comment> \<open>the \<^verbatim>\<open>int64\<close> that 64-bit two's complement arithmetic leaves for the exact result \<open>x\<close>\<close>
  "wrap64 x = (x + 2 ^ 63) mod 2 ^ 64 - 2 ^ 63"

fun digits :: "nat \<Rightarrow> string" where
  "digits n = (if n < 10 then [''0123456789'' ! n]
               else digits (n div 10) @ [''0123456789'' ! (n mod 10)])"

declare digits.simps [simp del]

definition itoa :: "int \<Rightarrow> string" where
  \<comment> \<open>the verb \<^verbatim>\<open>%d\<close> of \<^verbatim>\<open>fmt.Sprintf\<close>\<close>
  "itoa i = (if i < 0 then CHR ''-'' # digits (nat (- i)) else digits (nat i))"

section \<open>Package database: configuration and options\<close>

type_synonym DatabaseType = string

record ConnectionConfig =
  Type :: DatabaseType
  Host :: string
  Port :: int
  Username :: string
  Password :: string
  Database :: string
  SSLMode :: string
  ConnectionString :: string
  Options :: "(string \<times> string) list"
  ConnectionTimeout :: int
  MaxConnections :: int

record BackupOptions =
  Database :: string
  Databases :: "string list"
  AllDatabases :: bool
  Tables :: "string list"
  ExcludeTables :: "string list"
  Incremental :: bool
  ConsistentBackup :: bool
  OutputPath :: string
  Compression :: string
  Parallel :: int
  ChunkSize :: int
  Metadata :: "(string \<times> string) list"

text \<open>
  A \<^verbatim>\<open>time.Time\<close> is observed through its calendar fields (which \<^verbatim>\<open>Format\<close> prints),
  \<^verbatim>\<open>Unix()\<close>, \<^verbatim>\<open>Nanosecond()\<close> and, for a result of \<^verbatim>\<open>time.Now()\<close>, the reading of the
  monotonic clock in nanoseconds, which \<^verbatim>\<open>Sub\<close> uses.
\<close>

record Time =
  Year :: int
  Month :: int
  Day :: int
  Hour :: int
  Minute :: int
  Second :: int
  Unix :: int
  Nanosecond :: int
  Monotonic :: int

record RestoreOptions =
  Database :: string
  SourceBackup :: string
  Tables :: "string list"
  ExcludeTables :: "string list"
  PointInTime :: "Time option"
  SkipValidation :: bool
  Parallel :: int
  DropExisting :: bool
  Metadata :: "(string \<times> string) list"

section \<open>Go errors\<close>

text \<open>
  An \<^verbatim>\<open>error\<close> is an interface value: \<^verbatim>\<open>nil\<close> (\<^const>\<open>None\<close> of \<^typ>\<open>'a option\<close>), or a value of
  some dynamic type. When the dynamic type is \<^verbatim>\<open>*BackupError\<close> of package \<^verbatim>\<open>errors\<close>, the
  value is a pointer, which may itself be \<^verbatim>\<open>nil\<close>: a nil \<^verbatim>\<open>*BackupError\<close> that is converted to
  \<^verbatim>\<open>error\<close> is an error that is not \<^verbatim>\<open>nil\<close>. Of an error of any other dynamic type the
  program observes only the message and what \<^verbatim>\<open>Unwrap\<close> returns: nothing (\<^verbatim>\<open>errors.New\<close>,
  \<^verbatim>\<open>fmt.Errorf\<close> without \<^verbatim>\<open>%w\<close>), one error (\<^verbatim>\<open>fmt.Errorf\<close> with \<^verbatim>\<open>%w\<close>,
  \<^verbatim>\<open>database.DriverError\<close>) or several (\<^verbatim>\<open>errors.Join\<close>); the methods \<^verbatim>\<open>Error\<close> and \<^verbatim>\<open>Unwrap\<close> of
  these types return, and none of them has an \<^verbatim>\<open>As\<close> method.
\<close>

type_synonym ErrorType = string

definition ErrorTypeDatabase :: ErrorType where "ErrorTypeDatabase = ''DATABASE''"
definition ErrorTypeStorage :: ErrorType where "ErrorTypeStorage = ''STORAGE''"
definition ErrorTypeCompression :: ErrorType where "ErrorTypeCompression = ''COMPRESSION''"
definition ErrorTypeEncryption :: ErrorType where "ErrorTypeEncryption = ''ENCRYPTION''"
definition ErrorTypeValidation :: ErrorType where "ErrorTypeValidation = ''VALIDATION''"
definition ErrorTypeConfiguration :: ErrorType where "ErrorTypeConfiguration = ''CONFIGURATION''"
definition ErrorTypeNetwork :: ErrorType where "ErrorTypeNetwork = ''NETWORK''"
definition ErrorTypeRetention :: ErrorType where "ErrorTypeRetention = ''RETENTION''"
definition ErrorTypeOperation :: ErrorType where "ErrorTypeOperation = ''OPERATION''"
definition ErrorTypeNotFound :: ErrorType where "ErrorTypeNotFound = ''NOT_FOUND''"
definition ErrorTypeInternal :: ErrorType where "ErrorTypeInternal = ''INTERNAL''"

text \<open>
  The text of a message is a sequence of fragments, read one after the other.
  \<open>Quoted s\<close> stands for \<^verbatim>\<open>strconv.Quote(s)\<close>, which is what the verb \<^verbatim>\<open>%q\<close> prints for a
  string: it depends on Unicode's table of printable characters, and the program never
  looks into it.
\<close>

datatype fragment = Text string | Quoted string

type_synonym message = "fragment list"

datatype error =
    Foreign message "error list"
      \<comment> \<open>an error that is not a \<^verbatim>\<open>*BackupError\<close>: its message and the errors it unwraps to\<close>
  | BackupErrorPtr "BackupError option"
      \<comment> \<open>an error whose dynamic type is \<^verbatim>\<open>*BackupError\<close>; \<^const>\<open>None\<close> is the nil pointer\<close>
and BackupError =
    BackupError (Type: ErrorType) (Message: string) (Err: "error option")
      (StackTrace: string) (Metadata: "(string \<times> string) list")

abbreviation errorString :: "string \<Rightarrow> error" where
  \<comment> \<open>\<^verbatim>\<open>errors.New(msg)\<close>, \<^verbatim>\<open>fmt.Errorf\<close> without \<^verbatim>\<open>%w\<close> and without \<^verbatim>\<open>%q\<close>\<close>
  "errorString msg \<equiv> Foreign [Text msg] []"

datatype panic = NilPointerDereference
  \<comment> \<open>the run-time panic of reading a field through a nil pointer\<close>

definition and_then :: "panic + 'a \<Rightarrow> ('a \<Rightarrow> panic + 'b) \<Rightarrow> panic + 'b" where
  \<comment> \<open>a panic ends the evaluation: what would have come after it is not run\<close>
  "and_then r f = (case r of Inl p \<Rightarrow> Inl p | Inr x \<Rightarrow> f x)"

section \<open>Package validation\<close>

definition ValidateDatabaseName :: "string \<Rightarrow> error option" where
  "ValidateDatabaseName name =
     (if name = '''' then Some (errorString ''database name cannot be empty'')
      else if length name > 64 then
        Some (errorString ''database name too long (max 64 characters)'')
      else if HasPrefix name ''-'' then
        Some (errorString ''database name cannot start with dash'')
      else if HasPrefix name ''.'' then
        Some (errorString ''database name cannot start with dot'')
      else if \<not> MatchString DatabaseNameRegex name then
        Some (errorString
          ''database name contains invalid characters (only alphanumeric, underscore, and hyphen allowed)'')
      else None)"

definition ValidateTableName :: "string \<Rightarrow> error option" where
  "ValidateTableName name =
     (if name = '''' then Some (errorString ''table name cannot be empty'')
      else if length name > 128 then
        Some (errorString ''table name too long (max 128 characters)'')
      else if HasPrefix name ''-'' then
        Some (errorString ''table name cannot start with dash'')
      else if HasPrefix name ''.'' then
        Some (errorString ''table name cannot start with dot'')
      else if \<not> MatchString TableNameRegex name then
        Some (errorString ''table name contains invalid characters'')
      else None)"

definition ValidateBackupID :: "string \<Rightarrow> error option" where
  "ValidateBackupID bid =
     (if bid = '''' then Some (errorString ''backup ID cannot be empty'')
      else if Contains bid ''..'' then Some (errorString (''backup ID cannot contain '' @ [CHR 0x27] @ ''..'' @ [CHR 0x27]))
      else if Contains bid ''/'' \<or> Contains bid [CHR 0x5C] then
        Some (errorString ''backup ID cannot contain path separators'')
      else if \<not> MatchString BackupIDRegex bid then
        Some (errorString ''backup ID has invalid format'')
      else None)"

definition ValidatePort :: "int \<Rightarrow> error option" where
  "ValidatePort port =
     (if port < 1 \<or> port > 65535 then
        Some (errorString (''port must be between 1 and 65535, got '' @ itoa port))
      else None)"

definition ValidateCompressionLevel :: "int \<Rightarrow> error option" where
  "ValidateCompressionLevel level =
     (if level < -1 \<or> level > 9 then
        Some (errorString (''compression level must be between -1 and 9, got '' @ itoa level))
      else None)"

section \<open>Package errors\<close>

text \<open>
  \<^verbatim>\<open>captureStackTrace\<close> reads the run-time call stack; the text it returns is the
  parameter \<open>trace\<close> of the constructors below. A function that returns a \<^verbatim>\<open>*BackupError\<close>
  returns a \<^typ>\<open>BackupError option\<close>; a caller that passes or returns it as an \<^verbatim>\<open>error\<close>
  applies \<^const>\<open>BackupErrorPtr\<close> to it.
\<close>

definition New :: "ErrorType \<Rightarrow> string \<Rightarrow> string \<Rightarrow> BackupError option" where
  "New errType message trace = Some (BackupError errType message None trace [])"

fun errors_As :: "error \<Rightarrow> BackupError option option"
  and errors_As_list :: "error list \<Rightarrow> BackupError option option" where
  \<comment> \<open>\<^verbatim>\<open>errors.As(err, &backupErr)\<close> with \<^verbatim>\<open>backupErr\<close> of type \<^verbatim>\<open>*BackupError\<close>, for \<^verbatim>\<open>err\<close> that
      is not \<^verbatim>\<open>nil\<close>: the pointer of the first error of dynamic type \<^verbatim>\<open>*BackupError\<close> that is
      met when \<^verbatim>\<open>err\<close> is unwrapped depth first, whether the pointer is \<^verbatim>\<open>nil\<close> or not;
      \<^const>\<open>None\<close> when \<^verbatim>\<open>errors.As\<close> returns false\<close>
  "errors_As (BackupErrorPtr p) = Some p"
| "errors_As (Foreign m es) = errors_As_list es"
| "errors_As_list [] = None"
| "errors_As_list (e # es) =
     (case errors_As e of Some p \<Rightarrow> Some p | None \<Rightarrow> errors_As_list es)"

definition Wrap :: "error option \<Rightarrow> ErrorType \<Rightarrow> string \<Rightarrow> string \<Rightarrow> panic + BackupError option"
  where
  \<comment> \<open>the result is a \<^verbatim>\<open>*BackupError\<close>: \<open>Inr None\<close> is the nil pointer\<close>
  "Wrap err errType message trace =
     (case err of
        None \<Rightarrow> Inr None
      | Some e \<Rightarrow>
          and_then
            (case errors_As e of
               Some backupErr \<Rightarrow>
                 if errType = [] then
                   (case backupErr of
                      None \<Rightarrow> Inl NilPointerDereference
                    | Some b \<Rightarrow> Inr (Type b))
                 else Inr errType
             | None \<Rightarrow> Inr errType)
            (\<lambda>errType. Inr (Some (BackupError errType message (Some e) trace []))))"

definition WithMetadata :: "BackupError option \<Rightarrow> string \<Rightarrow> string \<Rightarrow> panic + BackupError option"
  where
  \<comment> \<open>\<^verbatim>\<open>e.Metadata[key] = value\<close> on the \<^verbatim>\<open>*BackupError\<close> \<^verbatim>\<open>e\<close>, which is returned\<close>
  "WithMetadata e key v =
     (case e of
        None \<Rightarrow> Inl NilPointerDereference
      | Some (BackupError t m c st md) \<Rightarrow>
          Inr (Some (BackupError t m c st (AList.update key v md))))"

definition ErrDatabaseBackup :: "error option \<Rightarrow> string \<Rightarrow> panic + BackupError option" where
  "ErrDatabaseBackup err trace = Wrap err ErrorTypeDatabase ''failed to create database backup'' trace"

definition ErrDatabaseRestore :: "error option \<Rightarrow> string \<Rightarrow> panic + BackupError option" where
  "ErrDatabaseRestore err trace = Wrap err ErrorTypeDatabase ''failed to restore database'' trace"

definition ErrStorageUpload :: "error option \<Rightarrow> string \<Rightarrow> panic + BackupError option" where
  "ErrStorageUpload err trace = Wrap err ErrorTypeStorage ''failed to upload to storage'' trace"

definition IsRetryable :: "error option \<Rightarrow> panic + bool" where
  "IsRetryable err =
     (case err of
        None \<Rightarrow> Inr False
      | Some e \<Rightarrow>
          (case errors_As e of
             Some backupErr \<Rightarrow>
               (case backupErr of
                  None \<Rightarrow> Inl NilPointerDereference
                | Some b \<Rightarrow> Inr (Type b = ErrorTypeNetwork \<or> Type b = ErrorTypeStorage))
           | None \<Rightarrow> Inr False))"

subsection \<open>The unwrap chain of an error\<close>

fun chain :: "error \<Rightarrow> error list" and chain_list :: "error list \<Rightarrow> error list" where
  \<comment> \<open>the error itself, then everything reached through \<^verbatim>\<open>Unwrap\<close>, outermost first; nothing is
      reached through a nil \<^verbatim>\<open>*BackupError\<close>\<close>
  "chain (BackupErrorPtr None) = [BackupErrorPtr None]"
| "chain (BackupErrorPtr (Some (BackupError t m None st md))) =
     [BackupErrorPtr (Some (BackupError t m None st md))]"
| "chain (BackupErrorPtr (Some (BackupError t m (Some c) st md))) =
     BackupErrorPtr (Some (BackupError t m (Some c) st md)) # chain c"
| "chain (Foreign m es) = Foreign m es # chain_list es"
| "chain_list [] = []"
| "chain_list (e # es) = chain e @ chain_list es"

fun is_BackupError :: "error \<Rightarrow> bool" where
  \<comment> \<open>the dynamic type of the error is \<^verbatim>\<open>*BackupError\<close>\<close>
  "is_BackupError (BackupErrorPtr p) = True"
| "is_BackupError (Foreign m es) = False"

definition retryable_type :: "BackupError \<Rightarrow> bool" where
  "retryable_type b = (Type b = ErrorTypeNetwork \<or> Type b = ErrorTypeStorage)"

definition outermost_BackupError :: "error \<Rightarrow> BackupError option option" where
  \<comment> \<open>the pointer of the first \<^verbatim>\<open>*BackupError\<close> of the chain; \<^const>\<open>None\<close> when the chain has none,
      \<open>Some None\<close> when that pointer is \<^verbatim>\<open>nil\<close>\<close>
  "outermost_BackupError e =
     (case find is_BackupError (chain e) of
        Some (BackupErrorPtr p) \<Rightarrow> Some p
      | _ \<Rightarrow> None)"

definition wraps_retryable :: "error \<Rightarrow> bool" where
  \<comment> \<open>the error is, or wraps at any depth, a \<^verbatim>\<open>*BackupError\<close> of type storage or network\<close>
  "wraps_retryable e =
     list_ex (\<lambda>x. case x of BackupErrorPtr (Some b) \<Rightarrow> retryable_type b | _ \<Rightarrow> False) (chain e)"

section \<open>Error messages\<close>

fun fmt_v :: "error \<Rightarrow> message" and Error_msg :: "BackupError \<Rightarrow> message" where
  \<comment> \<open>\<^const>\<open>fmt_v\<close>: what the verbs \<^verbatim>\<open>%v\<close> and \<^verbatim>\<open>%w\<close> of \<^verbatim>\<open>fmt\<close> print for an error that is not \<^verbatim>\<open>nil\<close>:
      the result of its method \<^verbatim>\<open>Error()\<close>, and \<^verbatim>\<open><nil>\<close> for a nil pointer, on which the
      method panics and \<^verbatim>\<open>fmt\<close> recovers. \<^const>\<open>Error_msg\<close>: the method \<^verbatim>\<open>Error()\<close> of a
      \<^verbatim>\<open>*BackupError\<close> that is not \<^verbatim>\<open>nil\<close>\<close>
  "fmt_v (Foreign m es) = m"
| "fmt_v (BackupErrorPtr None) = [Text ''<nil>'']"
| "fmt_v (BackupErrorPtr (Some b)) = Error_msg b"
| "Error_msg (BackupError t m None st md) = [Text (''['' @ t @ ''] '' @ m)]"
| "Error_msg (BackupError t m (Some c) st md) = Text (''['' @ t @ ''] '' @ m @ '': '') # fmt_v c"

definition Errorf_wrap :: "string \<Rightarrow> string \<Rightarrow> error \<Rightarrow> error" where
  \<comment> \<open>\<^verbatim>\<open>fmt.Errorf("<what> %q: %w", name, err)\<close>\<close>
  "Errorf_wrap what name err =
     Foreign ([Text (what @ '' ''), Quoted name, Text '': ''] @ fmt_v err) [err]"

section \<open>Package path/filepath on Unix\<close>

text \<open>
  \<^verbatim>\<open>filepath.Clean\<close> works element by element: empty elements and \<^verbatim>\<open>.\<close> are dropped, a
  \<^verbatim>\<open>..\<close> removes the element before it when that is a real element, is dropped at the
  root of a rooted path and is kept at the start of a relative one; the result has one
  separator between elements, no trailing separator, and is \<^verbatim>\<open>.\<close> when nothing is left.
\<close>

fun splitc :: "string \<Rightarrow> string list" where
  \<comment> \<open>the elements between the separators\<close>
  "splitc [] = [[]]"
| "splitc (c # cs) =
     (if c = CHR ''/'' then [] # splitc cs
      else (case splitc cs of w # ws \<Rightarrow> (c # w) # ws | [] \<Rightarrow> [[c]]))"

fun join_sep :: "string list \<Rightarrow> string" where
  "join_sep [] = []"
| "join_sep [c] = c"
| "join_sep (c # d # cs) = c @ ''/'' @ join_sep (d # cs)"

fun clean_elems :: "bool \<Rightarrow> string list \<Rightarrow> string list \<Rightarrow> string list" where
  \<comment> \<open>\<open>out\<close> holds the elements written so far; \<^verbatim>\<open>out.w > dotdot\<close> of the source says that
      the last of them is a real element\<close>
  "clean_elems rooted out [] = out"
| "clean_elems rooted out (c # cs) =
     (if c = [] \<or> c = ''.'' then clean_elems rooted out cs
      else if c = ''..'' then
        (if out \<noteq> [] \<and> last out \<noteq> ''..'' then clean_elems rooted (butlast out) cs
         else if \<not> rooted then clean_elems rooted (out @ [''..'']) cs
         else clean_elems rooted out cs)
      else clean_elems rooted (out @ [c]) cs)"

definition render :: "bool \<Rightarrow> string list \<Rightarrow> string" where
  "render rooted out =
     (if rooted then ''/'' @ join_sep out else if out = [] then ''.'' else join_sep out)"

definition Clean :: "string \<Rightarrow> string" where
  "Clean path =
     (if path = [] then ''.''
      else let rooted = (hd path = CHR ''/'')
           in render rooted (clean_elems rooted [] (splitc path)))"

definition IsAbs :: "string \<Rightarrow> bool" where
  "IsAbs path = HasPrefix path ''/''"

definition Join :: "string \<Rightarrow> string \<Rightarrow> string" where
  \<comment> \<open>\<^verbatim>\<open>filepath.Join(a, b)\<close>: empty elements are ignored, the rest is joined and cleaned\<close>
  "Join a b =
     (if a \<noteq> [] then Clean (a @ ''/'' @ b)
      else if b \<noteq> [] then Clean b
      else [])"

definition Abs :: "error + string \<Rightarrow> string \<Rightarrow> error + string" where
  \<comment> \<open>\<open>wd\<close> is what \<^verbatim>\<open>os.Getwd()\<close> returns\<close>
  "Abs wd path =
     (if IsAbs path then Inr (Clean path)
      else (case wd of Inl err \<Rightarrow> Inl err | Inr w \<Rightarrow> Inr (Join w path)))"

definition elem :: "string \<Rightarrow> string" where
  \<comment> \<open>the bytes up to the next separator\<close>
  "elem s = takeWhile (\<lambda>c. c \<noteq> CHR ''/'') s"

definition after_elem :: "string \<Rightarrow> string" where
  \<comment> \<open>what follows the next separator\<close>
  "after_elem s = drop 1 (dropWhile (\<lambda>c. c \<noteq> CHR ''/'') s)"

partial_function (option) rel_loop :: "string \<Rightarrow> string \<Rightarrow> (string \<times> string \<times> string) option"
  where
  \<comment> \<open>the loop of \<^verbatim>\<open>filepath.Rel\<close> that positions \<^verbatim>\<open>base[b0:bi]\<close> and \<^verbatim>\<open>targ[t0:ti]\<close> at the
      first differing elements. Its condition \<^verbatim>\<open>bi <= bl && ti <= tl\<close> always holds, so it
      ends only at the \<^verbatim>\<open>break\<close>. \<open>b\<close> and \<open>t\<close> are \<^verbatim>\<open>base[b0:]\<close> and \<^verbatim>\<open>targ[t0:]\<close> at the
      start of an iteration; the result is \<^verbatim>\<open>(base[b0:], base[b0:bi], targ[t0:])\<close> at the
      \<^verbatim>\<open>break\<close>, and \<^const>\<open>None\<close> when the loop runs forever\<close>
  "rel_loop b t =
     (if elem t \<noteq> elem b then Some (b, elem b, t)
      else rel_loop (after_elem b) (after_elem t))"

declare rel_loop.simps [code]

definition Rel :: "string \<Rightarrow> string \<Rightarrow> (error + string) option" where
  "Rel basepath targpath =
     (let base = Clean basepath; targ = Clean targpath;
          cant = errorString (''Rel: can't make '' @ targpath @ '' relative to '' @ basepath)
      in if targ = base then Some (Inr ''.'')
         else let base = (if base = ''.'' then [] else base)
              in if HasPrefix base ''/'' \<noteq> HasPrefix targ ''/'' then Some (Inl cant)
                 else (case rel_loop base targ of
                         None \<Rightarrow> None
                       | Some (brest, bcur, trest) \<Rightarrow>
                           if bcur = ''..'' then Some (Inl cant)
                           else if brest \<noteq> [] then
                             Some (Inr (''..''
                                  @ concat (replicate (count_list brest CHR ''/'') ''/..'')
                                  @ (if trest \<noteq> [] then ''/'' @ trest else [])))
                           else Some (Inr trest)))"

definition SanitizePath :: "error + string \<Rightarrow> string \<Rightarrow> string \<Rightarrow> (error + string) option"
  where
  \<comment> \<open>\<^const>\<open>None\<close>: the call does not return\<close>
  "SanitizePath wd path baseDir =
     (let cleaned = Clean path;
          traversal = errorString (''path traversal detected: path must be within '' @ baseDir)
      in if baseDir \<noteq> [] then
           (case Abs wd baseDir of
              Inl err \<Rightarrow> Some (Inl (Foreign (Text ''invalid base directory: '' # fmt_v err) [err]))
            | Inr absBase \<Rightarrow>
                (case Abs wd cleaned of
                   Inl err \<Rightarrow> Some (Inl (Foreign (Text ''invalid path: '' # fmt_v err) [err]))
                 | Inr absPath \<Rightarrow>
                     (case Rel absBase absPath of
                        None \<Rightarrow> None
                      | Some (Inl err) \<Rightarrow> Some (Inl traversal)
                      | Some (Inr relPath) \<Rightarrow>
                          if HasPrefix relPath ''..'' then Some (Inl traversal)
                          else Some (Inr cleaned))))
         else Some (Inr cleaned))"

definition within :: "string \<Rightarrow> string \<Rightarrow> bool" where
  \<comment> \<open>\<open>base\<close> is a prefix of \<open>p\<close> that ends where an element of \<open>p\<close> ends: \<open>p\<close> is \<open>base\<close>
      itself, or \<open>base\<close> ends with the separator, or a separator follows \<open>base\<close> in \<open>p\<close>\<close>
  "within base p =
     (prefix base p \<and>
      (p = base \<or> (base \<noteq> [] \<and> last base = CHR ''/'') \<or>
       (length base < length p \<and> p ! length base = CHR ''/'')))"

definition wd_absolute :: "error + string \<Rightarrow> bool" where
  \<comment> \<open>\<^verbatim>\<open>os.Getwd\<close> fails or returns an absolute path\<close>
  "wd_absolute wd = (case wd of Inl err \<Rightarrow> True | Inr w \<Rightarrow> IsAbs w)"

section \<open>Package utils: backup identifiers\<close>

definition appendInt :: "int \<Rightarrow> nat \<Rightarrow> string" where
  \<comment> \<open>\<^verbatim>\<open>appendInt(b, x, width)\<close> of package \<^verbatim>\<open>time\<close>: the decimal form of \<^verbatim>\<open>x\<close>, zero-padded
      to \<^verbatim>\<open>width\<close>, after a minus sign when \<^verbatim>\<open>x\<close> is negative\<close>
  "appendInt x width =
     (let u = digits (nat \<bar>x\<bar>)
      in (if x < 0 then ''-'' else []) @ replicate (width - length u) CHR ''0'' @ u)"

definition Format_20060102_150405 :: "Time \<Rightarrow> string" where
  \<comment> \<open>\<^verbatim>\<open>t.Format("20060102-150405")\<close>\<close>
  "Format_20060102_150405 t =
     appendInt (Year t) 4 @ appendInt (Month t) 2 @ appendInt (Day t) 2 @ ''-'' @
     appendInt (Hour t) 2 @ appendInt (Minute t) 2 @ appendInt (Second t) 2"

definition UnixNano :: "Time \<Rightarrow> int" where
  \<comment> \<open>\<^verbatim>\<open>t.UnixNano()\<close>: seconds times \<^verbatim>\<open>1e9\<close> plus nanoseconds, in \<^verbatim>\<open>int64\<close>\<close>
  "UnixNano t = wrap64 (Unix t * 1000000000 + Nanosecond t)"

definition Sub :: "Time \<Rightarrow> Time \<Rightarrow> int" where
  \<comment> \<open>\<^verbatim>\<open>t.Sub(u)\<close> for two results of \<^verbatim>\<open>time.Now()\<close>: the difference of the monotonic readings,
      \<^verbatim>\<open>maxDuration\<close> or \<^verbatim>\<open>minDuration\<close> when it overflows\<close>
  "Sub t u =
     (let d = wrap64 (Monotonic t - Monotonic u)
      in if d < 0 \<and> Monotonic t > Monotonic u then 2 ^ 63 - 1
         else if d > 0 \<and> Monotonic t < Monotonic u then - (2 ^ 63)
         else d)"

definition go_rem :: "int \<Rightarrow> int \<Rightarrow> int" where
  \<comment> \<open>Go's \<^verbatim>\<open>%\<close>: the remainder has the sign of the dividend\<close>
  "go_rem a b = sgn a * (\<bar>a\<bar> mod \<bar>b\<bar>)"

definition GenerateBackupID :: "Time \<Rightarrow> Time \<Rightarrow> string" where
  \<comment> \<open>\<open>now1\<close> and \<open>now2\<close> are the results of the two calls of \<^verbatim>\<open>time.Now()\<close>\<close>
  "GenerateBackupID now1 now2 =
     ''backup-'' @ Format_20060102_150405 now1 @ ''-'' @ itoa (go_rem (UnixNano now2) 1000000)"

section \<open>Subprocesses and files\<close>

record Cmd =
  Path :: string
  Args :: "string list"
  Env :: "string list"

definition Command :: "string \<Rightarrow> string list \<Rightarrow> Cmd" where
  \<comment> \<open>\<^verbatim>\<open>exec.CommandContext(ctx, name, args...)\<close>: \<^verbatim>\<open>Args\<close> holds the name, then the arguments\<close>
  "Command name args = \<lparr>Path = name, Args = name # args, Env = []\<rparr>"

datatype stat_result = StatOk | StatNotExist error | StatError error

text \<open>What the operating system answers; the program does not decide any of it.\<close>

record os =
  Environ :: "string list"                       \<comment> \<open>\<^verbatim>\<open>os.Environ()\<close>\<close>
  Stat :: "string \<Rightarrow> stat_result"                \<comment> \<open>\<^verbatim>\<open>os.Stat(path)\<close> and \<^verbatim>\<open>os.IsNotExist\<close> of its error\<close>
  Open :: "string \<Rightarrow> error option"               \<comment> \<open>the error of \<^verbatim>\<open>os.Open(path)\<close>\<close>
  Start :: "Cmd \<Rightarrow> error option"                 \<comment> \<open>the error of \<^verbatim>\<open>cmd.Start()\<close>\<close>
  Wait :: "Cmd \<Rightarrow> error option"                  \<comment> \<open>the error of \<^verbatim>\<open>cmd.Wait()\<close>\<close>
  Stdout :: "Cmd \<Rightarrow> string"                      \<comment> \<open>what the subprocess writes to its stdout\<close>
  Stderr :: "Cmd \<Rightarrow> string"                      \<comment> \<open>what the subprocess writes to its stderr\<close>

text \<open>What a call has done to the world outside the program.\<close>

record world =
  commands :: "Cmd list"    \<comment> \<open>the commands handed to the operating system to start, in order\<close>
  written :: string         \<comment> \<open>the bytes written to the \<^verbatim>\<open>io.Writer\<close> of the call\<close>

definition Run :: "os \<Rightarrow> Cmd \<Rightarrow> bool \<Rightarrow> world \<Rightarrow> error option \<times> world" where
  \<comment> \<open>\<^verbatim>\<open>cmd.Run()\<close>: \<^verbatim>\<open>Start\<close>, then \<^verbatim>\<open>Wait\<close>; \<open>to_writer\<close> says that \<^verbatim>\<open>cmd.Stdout\<close> is the writer of
      the call\<close>
  "Run sys cmd to_writer w =
     (let w1 = w\<lparr>commands := commands w @ [cmd]\<rparr>
      in (case Start sys cmd of
            Some err \<Rightarrow> (Some err, w1)
          | None \<Rightarrow>
              (Wait sys cmd,
               if to_writer then w1\<lparr>written := written w1 @ Stdout sys cmd\<rparr> else w1)))"

section \<open>The MongoDB driver\<close>

text \<open>
  The functions of a driver read the configuration that \<^verbatim>\<open>Connect\<close> stored in \<^verbatim>\<open>d.config\<close>;
  it is the parameter \<open>config\<close>.
\<close>

fun add_collections :: "string list \<Rightarrow> string list \<Rightarrow> error + string list" where
  \<comment> \<open>the loop over \<^verbatim>\<open>opts.Tables\<close> in \<^verbatim>\<open>buildMongoDumpArgs\<close>\<close>
  "add_collections [] args = Inr args"
| "add_collections (collection # rest) args =
     (case ValidateTableName collection of
        Some err \<Rightarrow> Inl (Errorf_wrap ''invalid collection name'' collection err)
      | None \<Rightarrow> add_collections rest (args @ [''--collection'', collection]))"

definition buildMongoDumpArgs :: "ConnectionConfig \<Rightarrow> BackupOptions \<Rightarrow> error + string list"
  where
  "buildMongoDumpArgs config opts =
     (let args = [''--host'', Host config, ''--port'', itoa (Port config),
                  ''--out'', OutputPath opts, ''--gzip''];
          args = (if Username config \<noteq> [] then args @ [''--username'', Username config]
                  else args);
          args = (if Password config \<noteq> [] then args @ [''--password'', Password config]
                  else args)
      in case (if BackupOptions.Database opts \<noteq> [] then
                 (case ValidateDatabaseName (BackupOptions.Database opts) of
                    Some err \<Rightarrow>
                      Inl (Errorf_wrap ''invalid database name'' (BackupOptions.Database opts) err)
                  | None \<Rightarrow> Inr (args @ [''--db'', BackupOptions.Database opts]))
               else Inr args) of
           Inl err \<Rightarrow> Inl err
         | Inr args \<Rightarrow>
             (case add_collections (BackupOptions.Tables opts) args of
                Inl err \<Rightarrow> Inl err
              | Inr args \<Rightarrow>
                  (let args = (if ConsistentBackup opts then args @ [''--oplog''] else args);
                       args = (if BackupOptions.Parallel opts > 1 then
                                 args @ [''--numParallelCollections'',
                                         itoa (BackupOptions.Parallel opts)]
                               else args)
                   in Inr args)))"

definition buildMongoRestoreArgs :: "ConnectionConfig \<Rightarrow> RestoreOptions \<Rightarrow> error + string list"
  where
  "buildMongoRestoreArgs config opts =
     (let args = [''--host'', Host config, ''--port'', itoa (Port config), ''--gzip''];
          args = (if Username config \<noteq> [] then args @ [''--username'', Username config]
                  else args);
          args = (if Password config \<noteq> [] then args @ [''--password'', Password config]
                  else args)
      in case (if RestoreOptions.Database opts \<noteq> [] then
                 (case ValidateDatabaseName (RestoreOptions.Database opts) of
                    Some err \<Rightarrow>
                      Inl (Errorf_wrap ''invalid database name'' (RestoreOptions.Database opts) err)
                  | None \<Rightarrow> Inr (args @ [''--db'', RestoreOptions.Database opts]))
               else Inr args) of
           Inl err \<Rightarrow> Inl err
         | Inr args \<Rightarrow>
             (let args = (if DropExisting opts then args @ [''--drop''] else args);
                  args = (if RestoreOptions.Parallel opts > 1 then
                            args @ [''--numParallelCollections'',
                                    itoa (RestoreOptions.Parallel opts)]
                          else args);
                  args = (case PointInTime opts of
                            Some t \<Rightarrow>
                              args @ [''--oplogReplay'', ''--oplogLimit'',
                                      itoa (Unix t) @ '':'' @ itoa 0]
                          | None \<Rightarrow> args)
              in Inr (args @ [SourceBackup opts])))"

definition mongodb_StreamBackup ::
  "ConnectionConfig \<Rightarrow> BackupOptions \<Rightarrow> string \<Rightarrow> os \<Rightarrow> world \<Rightarrow> error option \<times> world" where
  \<comment> \<open>the \<^verbatim>\<open>*BackupError\<close> of \<^const>\<open>New\<close> is returned as an \<^verbatim>\<open>error\<close>\<close>
  "mongodb_StreamBackup config opts trace sys w =
     (Some (BackupErrorPtr
              (New ErrorTypeDatabase
                 ''MongoDB streaming backup not implemented - use file-based backup'' trace)),
      w)"

definition mongodb_StreamRestore ::
  "ConnectionConfig \<Rightarrow> RestoreOptions \<Rightarrow> string \<Rightarrow> string \<Rightarrow> os \<Rightarrow> world
     \<Rightarrow> error option \<times> world" where
  \<comment> \<open>\<open>reader\<close> is the content of the \<^verbatim>\<open>io.Reader\<close>\<close>
  "mongodb_StreamRestore config opts reader trace sys w =
     (Some (BackupErrorPtr
              (New ErrorTypeDatabase
                 ''MongoDB streaming restore not implemented - use file-based restore'' trace)),
      w)"

section \<open>The MySQL driver\<close>

fun validate_all :: "(string \<Rightarrow> error option) \<Rightarrow> string \<Rightarrow> string list \<Rightarrow> error option" where
  \<comment> \<open>a loop that validates every name and returns at the first invalid one\<close>
  "validate_all v what [] = None"
| "validate_all v what (name # rest) =
     (case v name of
        Some err \<Rightarrow> Some (Errorf_wrap what name err)
      | None \<Rightarrow> validate_all v what rest)"

fun add_ignored :: "string \<Rightarrow> string list \<Rightarrow> string list \<Rightarrow> error + string list" where
  \<comment> \<open>the loop over \<^verbatim>\<open>opts.ExcludeTables\<close> in \<^verbatim>\<open>buildMySQLDumpArgs\<close>\<close>
  "add_ignored db [] args = Inr args"
| "add_ignored db (table # rest) args =
     (case ValidateTableName table of
        Some err \<Rightarrow> Inl (Errorf_wrap ''invalid excluded table name'' table err)
      | None \<Rightarrow> add_ignored db rest (args @ [''--ignore-table='' @ db @ ''.'' @ table]))"

definition buildMySQLDumpArgs :: "ConnectionConfig \<Rightarrow> BackupOptions \<Rightarrow> error + string list"
  where
  "buildMySQLDumpArgs config opts =
     (let args = [''--host='' @ Host config, ''--port='' @ itoa (Port config),
                  ''--user='' @ Username config, ''--single-transaction'', ''--routines'',
                  ''--triggers'', ''--events'', ''--skip-lock-tables'']
      in case (if AllDatabases opts then Inr (args @ [''--all-databases''])
               else if Databases opts \<noteq> [] then
                 (case validate_all ValidateDatabaseName ''invalid database name''
                         (Databases opts) of
                    Some err \<Rightarrow> Inl err
                  | None \<Rightarrow> Inr (args @ [''--databases''] @ Databases opts))
               else if BackupOptions.Database opts \<noteq> [] then
                 (case ValidateDatabaseName (BackupOptions.Database opts) of
                    Some err \<Rightarrow>
                      Inl (Errorf_wrap ''invalid database name'' (BackupOptions.Database opts) err)
                  | None \<Rightarrow> Inr (args @ [BackupOptions.Database opts]))
               else Inr args) of
           Inl err \<Rightarrow> Inl err
         | Inr args \<Rightarrow>
             (case (if BackupOptions.Tables opts \<noteq> [] \<and> BackupOptions.Database opts \<noteq> [] then
                      (case validate_all ValidateTableName ''invalid table name''
                              (BackupOptions.Tables opts) of
                         Some err \<Rightarrow> Inl err
                       | None \<Rightarrow> Inr (args @ BackupOptions.Tables opts))
                    else Inr args) of
                Inl err \<Rightarrow> Inl err
              | Inr args \<Rightarrow>
                  add_ignored (BackupOptions.Database opts)
                    (BackupOptions.ExcludeTables opts) args))"

definition mysql_StreamBackup ::
  "ConnectionConfig \<Rightarrow> BackupOptions \<Rightarrow> os \<Rightarrow> world \<Rightarrow> error option \<times> world" where
  "mysql_StreamBackup config opts sys w =
     (case buildMySQLDumpArgs config opts of
        Inl err \<Rightarrow> (Some err, w)
      | Inr args \<Rightarrow>
          Run sys ((Command ''mysqldump'' args)
                     \<lparr>Env := Environ sys @ [''MYSQL_PWD='' @ Password config]\<rparr>) True w)"

definition mysql_StreamRestore ::
  "ConnectionConfig \<Rightarrow> RestoreOptions \<Rightarrow> os \<Rightarrow> world \<Rightarrow> error option \<times> world" where
  "mysql_StreamRestore config opts sys w =
     (let args = [''--host='' @ Host config, ''--port='' @ itoa (Port config),
                  ''--user='' @ Username config];
          args = (if RestoreOptions.Database opts \<noteq> [] then
                    args @ [RestoreOptions.Database opts]
                  else args)
      in Run sys ((Command ''mysql'' args)
                    \<lparr>Env := Environ sys @ [''MYSQL_PWD='' @ Password config]\<rparr>) False w)"

datatype RestoreStatus =
  RestoreStatusPending | RestoreStatusInProgress | RestoreStatusSuccess | RestoreStatusFailed

record RestoreResult =
  StartTime :: Time
  EndTime :: "Time option"      \<comment> \<open>\<^const>\<open>None\<close>: the zero \<^verbatim>\<open>time.Time\<close>\<close>
  Duration :: int
  RestoredTables :: "string list"
  RowsRestored :: int
  Status :: RestoreStatus
  Error :: "error option"

definition failed :: "RestoreResult \<Rightarrow> error \<Rightarrow> RestoreResult" where
  \<comment> \<open>\<^verbatim>\<open>result.Status = database.RestoreStatusFailed; result.Error = err\<close>\<close>
  "failed result err = result\<lparr>Status := RestoreStatusFailed, Error := Some err\<rparr>"

definition mysql_Restore ::
  "ConnectionConfig \<Rightarrow> RestoreOptions \<Rightarrow> Time \<Rightarrow> Time \<Rightarrow> string \<Rightarrow> os \<Rightarrow> world
     \<Rightarrow> panic + ((RestoreResult \<times> error option) \<times> world)" where
  \<comment> \<open>\<open>now1\<close> and \<open>now2\<close> are the results of the two calls of \<^verbatim>\<open>time.Now()\<close>; the
      \<^verbatim>\<open>*BackupError\<close> of the constructors is returned as an \<^verbatim>\<open>error\<close>\<close>
  "mysql_Restore config opts now1 now2 trace sys w =
     (let result = \<lparr>StartTime = now1, EndTime = None, Duration = 0, RestoredTables = [],
                     RowsRestored = 0, Status = RestoreStatusInProgress, Error = None\<rparr>
      in case Stat sys (SourceBackup opts) of
           StatNotExist err \<Rightarrow>
             and_then (ErrDatabaseRestore (Some err) trace) (\<lambda>e.
             and_then (WithMetadata e ''backup_file'' (SourceBackup opts)) (\<lambda>e.
             Inr ((failed result err, Some (BackupErrorPtr e)), w)))
         | _ \<Rightarrow>
           (case (if RestoreOptions.Database opts \<noteq> [] then
                    ValidateDatabaseName (RestoreOptions.Database opts)
                  else None) of
              Some err \<Rightarrow>
                and_then (ErrDatabaseRestore (Some err) trace) (\<lambda>e.
                Inr ((failed result err, Some (BackupErrorPtr e)), w))
            | None \<Rightarrow>
                (let args = [''--host='' @ Host config, ''--port='' @ itoa (Port config),
                             ''--user='' @ Username config];
                     args = (if RestoreOptions.Database opts \<noteq> [] then
                               args @ [RestoreOptions.Database opts]
                             else args);
                     cmd = (Command ''mysql'' args)
                             \<lparr>Env := Environ sys @ [''MYSQL_PWD='' @ Password config]\<rparr>
                 in case Open sys (SourceBackup opts) of
                      Some err \<Rightarrow>
                        and_then (ErrDatabaseRestore (Some err) trace) (\<lambda>e.
                        Inr ((failed result err, Some (BackupErrorPtr e)), w))
                    | None \<Rightarrow>
                        (let w1 = w\<lparr>commands := commands w @ [cmd]\<rparr>
                         in case Start sys cmd of
                              Some err \<Rightarrow>
                                and_then (ErrDatabaseRestore (Some err) trace) (\<lambda>e.
                                Inr ((failed result err, Some (BackupErrorPtr e)), w1))
                            | None \<Rightarrow>
                                (case Wait sys cmd of
                                   Some err \<Rightarrow>
                                     and_then (ErrDatabaseRestore (Some err) trace) (\<lambda>e.
                                     and_then (WithMetadata e ''stderr'' (Stderr sys cmd)) (\<lambda>e.
                                     Inr ((failed result err, Some (BackupErrorPtr e)), w1)))
                                 | None \<Rightarrow>
                                     Inr ((result\<lparr>EndTime := Some now2,
                                                  Duration := Sub now2 now1,
                                                  Status := RestoreStatusSuccess\<rparr>, None),
                                          w1))))))"

section \<open>The vocabulary of the specification\<close>

definition db_alphabet :: "char set" where
  \<comment> \<open>the characters \<^verbatim>\<open>[A-Za-z0-9_-]\<close>\<close>
  "db_alphabet =
     set (''abcdefghijklmnopqrstuvwxyz'' @ ''ABCDEFGHIJKLMNOPQRSTUVWXYZ'' @ ''0123456789'' @ ''_-'')"

definition table_alphabet :: "char set" where
  \<comment> \<open>the characters \<^verbatim>\<open>[A-Za-z0-9_.-]\<close>\<close>
  "table_alphabet =
     set (''abcdefghijklmnopqrstuvwxyz'' @ ''ABCDEFGHIJKLMNOPQRSTUVWXYZ'' @ ''0123456789'' @ ''_.-'')"

definition db_over_storage :: error where
  \<comment> \<open>\<^verbatim>\<open>ErrDatabaseBackup(ErrStorageUpload(errors.New("timeout")))\<close>\<close>
  "db_over_storage =
     BackupErrorPtr (Some (BackupError ''DATABASE'' ''failed to create database backup''
       (Some (BackupErrorPtr (Some (BackupError ''STORAGE'' ''failed to upload to storage''
                (Some (errorString ''timeout'')) ''trace 1'' []))))
       ''trace 2'' []))"

definition declared_types :: "ErrorType list" where
  \<comment> \<open>the kinds of error that package \<^verbatim>\<open>errors\<close> declares\<close>
  "declared_types =
     [ErrorTypeDatabase, ErrorTypeStorage, ErrorTypeCompression, ErrorTypeEncryption,
      ErrorTypeValidation, ErrorTypeConfiguration, ErrorTypeNetwork, ErrorTypeRetention,
      ErrorTypeOperation, ErrorTypeNotFound, ErrorTypeInternal]"

definition Unsupported :: "error \<Rightarrow> bool" where
  \<comment> \<open>an error of the kind \<^verbatim>\<open>Unsupported\<close> of the specification. The kind of an error is the
      type of a \<^verbatim>\<open>*BackupError\<close>; each declared type is the kind of another condition
      (\<^verbatim>\<open>DATABASE\<close> is the kind of a dump or restore that failed), so the type of an
      \<^verbatim>\<open>Unsupported\<close> error is none of them\<close>
  "Unsupported e =
     (case e of
        BackupErrorPtr (Some b) \<Rightarrow> Type b \<notin> set declared_types
      | _ \<Rightarrow> False)"

subsection \<open>Invariants of the path functions\<close>

definition canon :: "bool \<Rightarrow> string list \<Rightarrow> bool" where
  \<comment> \<open>the elements of a cleaned path: none is empty, \<^verbatim>\<open>.\<close> or holds a separator, and \<^verbatim>\<open>..\<close>
      stands only at the start of a path that is not rooted\<close>
  "canon rooted out \<longleftrightarrow>
     (\<forall>c \<in> set out. c \<noteq> [] \<and> c \<noteq> ''.'' \<and> CHR ''/'' \<notin> set c) \<and>
     (rooted \<longrightarrow> ''..'' \<notin> set out) \<and>
     (\<forall>us vs. out = us @ ''..'' # vs \<longrightarrow> set us \<subseteq> {''..''})"

definition no_trail :: "string \<Rightarrow> bool" where
  \<comment> \<open>the string does not end with the separator\<close>
  "no_trail s \<longleftrightarrow> s = [] \<or> last s \<noteq> CHR ''/''"

definition follows :: "string \<Rightarrow> string \<Rightarrow> string \<Rightarrow> bool" where
  \<comment> \<open>\<open>t\<close> is \<open>b\<close>, then separators, then \<open>tr\<close>; \<open>b\<close> ends where an element of \<open>t\<close> ends\<close>
  "follows b t tr \<longleftrightarrow>
     (\<exists>m. t = b @ m @ tr \<and> set m \<subseteq> {CHR ''/''} \<and> (m = [] \<longrightarrow> b = [] \<or> last b = CHR ''/''))"

definition loop_post :: "string \<Rightarrow> string \<Rightarrow> string \<times> string \<times> string \<Rightarrow> bool" where
  \<comment> \<open>what holds of the result of \<^const>\<open>rel_loop\<close>\<close>
  "loop_post b t y \<longleftrightarrow>
     (case y of (brest, bcur, trest) \<Rightarrow>
        elem trest \<noteq> elem brest \<and> bcur = elem brest \<and> (brest = [] \<longrightarrow> follows b t trest))"

subsection \<open>Example inputs\<close>

definition example_now :: Time where
  \<comment> \<open>2025-12-29 10:30:45.123456789 UTC, a day after the monotonic clock started\<close>
  "example_now = \<lparr>Year = 2025, Month = 12, Day = 29, Hour = 10, Minute = 30, Second = 45,
                   Unix = 1767004245, Nanosecond = 123456789, Monotonic = 86400000000000\<rparr>"

definition example_config :: ConnectionConfig where
  "example_config =
     \<lparr>ConnectionConfig.Type = ''mongodb'', Host = ''db.internal'', Port = 27017, Username = ''backup'',
      Password = ''s3cret'', ConnectionConfig.Database = ''shop'', SSLMode = [],
      ConnectionString = [], Options = [], ConnectionTimeout = 30000000000,
      MaxConnections = 10\<rparr>"

definition example_mysql_config :: ConnectionConfig where
  "example_mysql_config =
     \<lparr>ConnectionConfig.Type = ''mysql'', Host = ''db.internal'', Port = 3306, Username = ''backup'',
      Password = ''s3cret'', ConnectionConfig.Database = ''shop'', SSLMode = [],
      ConnectionString = [], Options = [], ConnectionTimeout = 30000000000,
      MaxConnections = 10\<rparr>"

definition example_backup :: BackupOptions where
  "example_backup =
     \<lparr>BackupOptions.Database = ''shop'', Databases = [], AllDatabases = False,
      BackupOptions.Tables = [''orders'', ''users''], BackupOptions.ExcludeTables = [],
      Incremental = False, ConsistentBackup = True, OutputPath = ''/var/backups/shop'',
      Compression = ''gzip'', BackupOptions.Parallel = 4, ChunkSize = 0,
      BackupOptions.Metadata = []\<rparr>"

definition example_restore :: RestoreOptions where
  "example_restore =
     \<lparr>RestoreOptions.Database = ''shop'', SourceBackup = ''/var/backups/shop'',
      RestoreOptions.Tables = [], RestoreOptions.ExcludeTables = [], PointInTime = None,
      SkipValidation = False, RestoreOptions.Parallel = 1, DropExisting = True,
      RestoreOptions.Metadata = []\<rparr>"

definition example_os :: os where
  "example_os =
     \<lparr>Environ = [''PATH=/usr/bin''], Stat = (\<lambda>p. StatOk), Open = (\<lambda>p. None),
      Start = (\<lambda>c. None), Wait = (\<lambda>c. None), Stdout = (\<lambda>c. []), Stderr = (\<lambda>c. [])\<rparr>"

section \<open>The identifier guard\<close>

lemma MatchString_Plus:
  "MatchString [Plus cls] s \<longleftrightarrow> s \<noteq> [] \<and> list_all (in_class cls) s"
proof
  assume "MatchString [Plus cls] s"
  then obtain k where k: "1 \<le> k" "k \<le> length s" "list_all (in_class cls) (take k s)"
      "drop k s = []"
    by (auto simp: list_ex_iff)
  from k(4) have "length s \<le> k" by simp
  with k show "s \<noteq> [] \<and> list_all (in_class cls) s" by auto
next
  assume a: "s \<noteq> [] \<and> list_all (in_class cls) s"
  then have "length s \<in> set [1..<Suc (length s)]" by (cases s) auto
  with a show "MatchString [Plus cls] s"
    unfolding MatchString.simps list_ex_iff by (intro bexI[of _ "length s"]) auto
qed

lemma db_class_alphabet:
  "in_class [(CHR ''a'', CHR ''z''), (CHR ''A'', CHR ''Z''), (CHR ''0'', CHR ''9''),
             (CHR ''_'', CHR ''_''), (CHR ''-'', CHR ''-'')] c
   \<longleftrightarrow> c \<in> db_alphabet"
  unfolding db_alphabet_def by (cases c) (simp add: in_class_def)

lemma table_class_alphabet:
  "in_class [(CHR ''a'', CHR ''z''), (CHR ''A'', CHR ''Z''), (CHR ''0'', CHR ''9''),
             (CHR ''_'', CHR ''_''), (CHR ''.'', CHR ''.''), (CHR ''-'', CHR ''-'')] c
   \<longleftrightarrow> c \<in> table_alphabet"
  unfolding table_alphabet_def by (cases c) (simp add: in_class_def)

lemma HasPrefix_iff_prefix: "HasPrefix s p \<longleftrightarrow> prefix p s"
proof
  assume "HasPrefix s p"
  then have "take (length p) s = p" by (simp add: HasPrefix_def)
  then show "prefix p s" by (metis take_is_prefix)
next
  assume "prefix p s"
  then obtain t where "s = p @ t" by (auto simp: prefix_def)
  then show "HasPrefix s p" by (simp add: HasPrefix_def)
qed

lemma DatabaseNameRegex_iff:
  "MatchString DatabaseNameRegex s \<longleftrightarrow> s \<noteq> [] \<and> set s \<subseteq> db_alphabet"
  unfolding DatabaseNameRegex_def MatchString_Plus list_all_iff db_class_alphabet
  by blast

lemma TableNameRegex_iff:
  "MatchString TableNameRegex s \<longleftrightarrow> s \<noteq> [] \<and> set s \<subseteq> table_alphabet"
  unfolding TableNameRegex_def MatchString_Plus list_all_iff table_class_alphabet
  by blast

lemma ValidateDatabaseName_None_iff:
  "ValidateDatabaseName s = None \<longleftrightarrow>
     1 \<le> length s \<and> length s \<le> 64 \<and> \<not> prefix ''-'' s \<and> \<not> prefix ''.'' s \<and>
     set s \<subseteq> db_alphabet"
proof -
  have "1 \<le> length s \<longleftrightarrow> s \<noteq> []" by (cases s) auto
  then show ?thesis
    unfolding ValidateDatabaseName_def HasPrefix_iff_prefix DatabaseNameRegex_iff
    by auto
qed

lemma ValidateTableName_None_iff:
  "ValidateTableName s = None \<longleftrightarrow>
     1 \<le> length s \<and> length s \<le> 128 \<and> \<not> prefix ''-'' s \<and> \<not> prefix ''.'' s \<and>
     set s \<subseteq> table_alphabet"
proof -
  have "1 \<le> length s \<longleftrightarrow> s \<noteq> []" by (cases s) auto
  then show ?thesis
    unfolding ValidateTableName_def HasPrefix_iff_prefix TableNameRegex_iff
    by auto
qed

lemma db_alphabet_subset: "db_alphabet \<subseteq> table_alphabet"
  unfolding db_alphabet_def table_alphabet_def by (simp add: subset_iff)

text \<open>
  Claim C5. \<^verbatim>\<open>ValidateDatabaseName(s)\<close> returns \<^verbatim>\<open>nil\<close> exactly when \<open>s\<close> has between 1 and 64
  bytes, does not start with \<^verbatim>\<open>-\<close> or \<^verbatim>\<open>.\<close>, and every character of \<open>s\<close> is one of
  \<^verbatim>\<open>[A-Za-z0-9_-]\<close>. So every accepted name has only these characters and a length
  between 1 and 64.
\<close>

theorem ValidateDatabaseName_accepts_exactly:
  "ValidateDatabaseName s = None \<longleftrightarrow>
     1 \<le> length s \<and> length s \<le> 64 \<and> \<not> prefix ''-'' s \<and> \<not> prefix ''.'' s \<and>
     set s \<subseteq> db_alphabet"
  by (rule ValidateDatabaseName_None_iff)

theorem ValidateDatabaseName_accepts_exactly_witness:
  "ValidateDatabaseName ''my_db-1'' = None \<and> ValidateDatabaseName ''my db'' \<noteq> None"
proof
  show "ValidateDatabaseName ''my_db-1'' = None"
    by (rule iffD2 [OF ValidateDatabaseName_accepts_exactly]) (simp add: db_alphabet_def)
  show "ValidateDatabaseName ''my db'' \<noteq> None"
    using ValidateDatabaseName_accepts_exactly [of "''my db''"]
    by (simp add: db_alphabet_def)
qed

lemma db_alphabet_proper: "db_alphabet \<subset> table_alphabet"
proof -
  have "CHR ''.'' \<in> table_alphabet" by (simp add: table_alphabet_def)
  moreover have "CHR ''.'' \<notin> db_alphabet" by (simp add: db_alphabet_def)
  ultimately show ?thesis using db_alphabet_subset by blast
qed

lemma prefix_single: "prefix [c] s \<longleftrightarrow> s \<noteq> [] \<and> hd s = c"
  by (cases s) auto

lemma dotted_name:
  "ValidateTableName ''a.b'' = None" "ValidateDatabaseName ''a.b'' \<noteq> None"
  unfolding ValidateTableName_None_iff ValidateDatabaseName_None_iff
  by (simp_all add: table_alphabet_def db_alphabet_def)

lemma long_name:
  "ValidateTableName (replicate 65 CHR ''a'') = None"
  "ValidateDatabaseName (replicate 65 CHR ''a'') \<noteq> None"
  unfolding ValidateTableName_None_iff ValidateDatabaseName_None_iff prefix_single
  by (simp_all add: table_alphabet_def)

text \<open>
  Claim C9. The policy for database names is strictly stronger than the policy for table
  names. \<^verbatim>\<open>ValidateDatabaseName\<close> accepts exactly the strings of 1 to 64 bytes over
  \<^verbatim>\<open>[A-Za-z0-9_-]\<close> that do not start with \<^verbatim>\<open>-\<close> or \<^verbatim>\<open>.\<close>, and \<^verbatim>\<open>ValidateTableName\<close> exactly
  the strings of 1 to 128 bytes over \<^verbatim>\<open>[A-Za-z0-9_.-]\<close> that do not start with \<^verbatim>\<open>-\<close> or \<^verbatim>\<open>.\<close>;
  the first alphabet is a proper subset of the second. So every string that
  \<^verbatim>\<open>ValidateDatabaseName\<close> accepts is accepted by \<^verbatim>\<open>ValidateTableName\<close>, both reject every
  string that starts with \<^verbatim>\<open>-\<close> or \<^verbatim>\<open>.\<close>, and the converse fails: \<^verbatim>\<open>a.b\<close> and the name of 65
  letters \<^verbatim>\<open>a\<close> are accepted as table names and rejected as database names.
\<close>

theorem database_name_policy_strictly_stronger:
  "(ValidateDatabaseName s = None \<longrightarrow> ValidateTableName s = None) \<and>
   (ValidateDatabaseName s = None \<longleftrightarrow>
      1 \<le> length s \<and> length s \<le> 64 \<and> \<not> prefix ''-'' s \<and> \<not> prefix ''.'' s \<and>
      set s \<subseteq> db_alphabet) \<and>
   (ValidateTableName s = None \<longleftrightarrow>
      1 \<le> length s \<and> length s \<le> 128 \<and> \<not> prefix ''-'' s \<and> \<not> prefix ''.'' s \<and>
      set s \<subseteq> table_alphabet) \<and>
   (prefix ''-'' s \<or> prefix ''.'' s \<longrightarrow>
      ValidateDatabaseName s \<noteq> None \<and> ValidateTableName s \<noteq> None) \<and>
   db_alphabet \<subset> table_alphabet \<and>
   ValidateTableName ''a.b'' = None \<and> ValidateDatabaseName ''a.b'' \<noteq> None \<and>
   ValidateTableName (replicate 65 CHR ''a'') = None \<and>
   ValidateDatabaseName (replicate 65 CHR ''a'') \<noteq> None"
proof -
  have incl: "ValidateDatabaseName s = None \<longrightarrow> ValidateTableName s = None"
    unfolding ValidateDatabaseName_None_iff ValidateTableName_None_iff
    using db_alphabet_subset by auto
  have lead: "prefix ''-'' s \<or> prefix ''.'' s \<longrightarrow>
      ValidateDatabaseName s \<noteq> None \<and> ValidateTableName s \<noteq> None"
    unfolding ValidateDatabaseName_None_iff ValidateTableName_None_iff by blast
  from incl ValidateDatabaseName_None_iff [of s] ValidateTableName_None_iff [of s] lead
    db_alphabet_proper dotted_name long_name
  show ?thesis by (intro conjI)
qed

theorem database_name_policy_strictly_stronger_witness:
  "ValidateDatabaseName ''shop'' = None \<and> ValidateTableName ''shop'' = None \<and>
   ValidateDatabaseName ''-shop'' \<noteq> None \<and> ValidateTableName ''-shop'' \<noteq> None \<and>
   ValidateDatabaseName ''a.b'' \<noteq> None \<and> ValidateTableName ''a.b'' = None"
  using database_name_policy_strictly_stronger [of "''shop''"]
    database_name_policy_strictly_stronger [of "''-shop''"]
  by (simp add: db_alphabet_def)

text \<open>
  Claim C6, as the code has it. \<^verbatim>\<open>ValidateCompressionLevel(level)\<close> returns \<^verbatim>\<open>nil\<close> exactly
  when \<open>-1 \<le> level \<le> 9\<close>: of the zstd levels 1 to 22 it accepts 1 to 9 and rejects 10
  to 22.
\<close>

theorem ValidateCompressionLevel_accepts_exactly:
  "ValidateCompressionLevel level = None \<longleftrightarrow> -1 \<le> level \<and> level \<le> 9"
  by (auto simp: ValidateCompressionLevel_def)

theorem ValidateCompressionLevel_accepts_exactly_witness:
  "ValidateCompressionLevel 9 = None \<and> ValidateCompressionLevel 22 \<noteq> None"
proof
  show "ValidateCompressionLevel 9 = None"
    by (rule iffD2 [OF ValidateCompressionLevel_accepts_exactly]) simp
  show "ValidateCompressionLevel 22 \<noteq> None"
    using ValidateCompressionLevel_accepts_exactly [of 22] by simp
qed

text \<open>
  The zstd level 10 lies between 1 and 22 and is rejected, with the message
  \<^verbatim>\<open>compression level must be between -1 and 9, got 10\<close>.
\<close>

theorem ValidateCompressionLevel_zstd_10_rejected:
  "(1::int) \<le> 10 \<and> (10::int) \<le> 22 \<and>
   ValidateCompressionLevel 10 =
     Some (errorString ''compression level must be between -1 and 9, got 10'')"
  by (simp add: ValidateCompressionLevel_def itoa_def digits.simps)

section \<open>Structured errors\<close>

lemma find_append_first:
  "find P (xs @ ys) = (case find P xs of Some x \<Rightarrow> Some x | None \<Rightarrow> find P ys)"
  by (induction xs) auto

lemma find_SomeD: "find P xs = Some x \<Longrightarrow> P x"
  by (induction xs) (auto split: if_splits)

lemma chain_BackupErrorPtr: "\<exists>rest. chain (BackupErrorPtr p) = BackupErrorPtr p # rest"
proof (cases p)
  case None
  then show ?thesis by simp
next
  case (Some b)
  obtain t m e st md where b: "b = BackupError t m e st md" by (cases b)
  show ?thesis unfolding Some b by (cases e) simp_all
qed

lemma errors_As_find:
  "errors_As e =
     (case find is_BackupError (chain e) of Some (BackupErrorPtr p) \<Rightarrow> Some p | _ \<Rightarrow> None)"
  "errors_As_list es =
     (case find is_BackupError (chain_list es) of Some (BackupErrorPtr p) \<Rightarrow> Some p | _ \<Rightarrow> None)"
proof (induction e and es rule: errors_As_errors_As_list.induct)
  case (1 p)
  from chain_BackupErrorPtr [of p] show ?case by auto
next
  case (2 m es)
  then show ?case by simp
next
  case 3
  then show ?case by simp
next
  case (4 e es)
  then show ?case
    by (auto simp: find_append_first split: option.splits error.splits dest: find_SomeD)
qed

text \<open>\<^verbatim>\<open>errors.As\<close> finds the outermost \<^verbatim>\<open>*BackupError\<close> of the chain.\<close>

lemma errors_As_outermost: "errors_As e = outermost_BackupError e"
  by (simp add: errors_As_find(1) outermost_BackupError_def)

lemma IsRetryable_cases:
  "IsRetryable err =
     (case err of
        None \<Rightarrow> Inr False
      | Some e \<Rightarrow>
          (case outermost_BackupError e of
             None \<Rightarrow> Inr False
           | Some None \<Rightarrow> Inl NilPointerDereference
           | Some (Some b) \<Rightarrow> Inr (retryable_type b)))"
  by (simp add: IsRetryable_def errors_As_outermost retryable_type_def split: option.splits)

lemma db_over_storage_built:
  "ErrStorageUpload (Some (errorString ''timeout'')) ''trace 1'' =
     Inr (Some (BackupError ''STORAGE'' ''failed to upload to storage''
                  (Some (errorString ''timeout'')) ''trace 1'' []))"
  "ErrDatabaseBackup
     (Some (BackupErrorPtr (Some (BackupError ''STORAGE'' ''failed to upload to storage''
                                    (Some (errorString ''timeout'')) ''trace 1'' []))))
     ''trace 2'' =
     Inr (Some (BackupError ''DATABASE'' ''failed to create database backup''
       (Some (BackupErrorPtr (Some (BackupError ''STORAGE'' ''failed to upload to storage''
                (Some (errorString ''timeout'')) ''trace 1'' []))))
       ''trace 2'' []))"
  by (simp_all add: ErrDatabaseBackup_def ErrStorageUpload_def Wrap_def and_then_def
        ErrorTypeDatabase_def ErrorTypeStorage_def)

text \<open>
  Claim C8, as the code has it. \<^verbatim>\<open>IsRetryable(err)\<close> returns true exactly when \<^verbatim>\<open>err\<close> is not
  \<^verbatim>\<open>nil\<close> and the outermost \<^verbatim>\<open>*BackupError\<close> of its unwrap chain (\<^verbatim>\<open>err\<close> itself, or the
  first one reached by unwrapping) is not a nil pointer and has type storage or network.
  It returns false exactly when \<^verbatim>\<open>err\<close> is \<^verbatim>\<open>nil\<close>, or no error of its chain is a
  \<^verbatim>\<open>*BackupError\<close>, or the outermost one is not a nil pointer and has another type.
\<close>

theorem IsRetryable_outermost:
  "(IsRetryable err = Inr True \<longleftrightarrow>
      (\<exists>e b. err = Some e \<and> outermost_BackupError e = Some (Some b) \<and> retryable_type b)) \<and>
   (IsRetryable err = Inr False \<longleftrightarrow>
      err = None \<or>
      (\<exists>e. err = Some e \<and>
         (outermost_BackupError e = None \<or>
          (\<exists>b. outermost_BackupError e = Some (Some b) \<and> \<not> retryable_type b))))"
  unfolding IsRetryable_cases by (auto split: option.splits)

theorem IsRetryable_outermost_witness:
  "IsRetryable (Some (Foreign [Text ''mongodb: upload'']
                  [BackupErrorPtr (New ErrorTypeStorage ''upload failed'' ''trace'')])) = Inr True \<and>
   IsRetryable (Some (BackupErrorPtr (New ErrorTypeNetwork ''connection reset'' ''trace''))) =
     Inr True \<and>
   IsRetryable (Some (BackupErrorPtr (New ErrorTypeValidation ''invalid input'' ''trace''))) =
     Inr False \<and>
   IsRetryable (Some (errorString ''standard error'')) = Inr False \<and>
   IsRetryable None = Inr False"
  using
    IsRetryable_outermost [of "Some (Foreign [Text ''mongodb: upload'']
                  [BackupErrorPtr (New ErrorTypeStorage ''upload failed'' ''trace'')])"]
    IsRetryable_outermost [of
      "Some (BackupErrorPtr (New ErrorTypeNetwork ''connection reset'' ''trace''))"]
    IsRetryable_outermost [of
      "Some (BackupErrorPtr (New ErrorTypeValidation ''invalid input'' ''trace''))"]
    IsRetryable_outermost [of "Some (errorString ''standard error'')"]
    IsRetryable_outermost [of None]
  by (simp add: outermost_BackupError_def retryable_type_def New_def ErrorTypeStorage_def
        ErrorTypeNetwork_def ErrorTypeValidation_def)

text \<open>
  A database error that wraps a storage error wraps a \<^verbatim>\<open>*BackupError\<close> of type storage,
  and is not retryable.
\<close>

theorem IsRetryable_wrapped_storage_not_retryable:
  "wraps_retryable db_over_storage \<and> IsRetryable (Some db_over_storage) = Inr False"
  by (simp add: db_over_storage_def wraps_retryable_def IsRetryable_def retryable_type_def
        ErrorTypeNetwork_def ErrorTypeStorage_def)

text \<open>
  When the outermost \<^verbatim>\<open>*BackupError\<close> is a nil pointer, and only then, \<^verbatim>\<open>IsRetryable\<close> does
  not return: reading \<^verbatim>\<open>backupErr.Type\<close> panics.
\<close>

lemma IsRetryable_nil_pointer:
  "IsRetryable err = Inl NilPointerDereference \<longleftrightarrow>
     (\<exists>e. err = Some e \<and> outermost_BackupError e = Some None)"
  unfolding IsRetryable_cases by (auto split: option.splits)

lemma IsRetryable_nil_pointer_example:
  "IsRetryable (Some (BackupErrorPtr None)) = Inl NilPointerDereference"
  by (simp add: IsRetryable_def)

text \<open>
  \<^verbatim>\<open>Wrap(nil, t, m)\<close> returns the nil \<^verbatim>\<open>*BackupError\<close>. As an \<^verbatim>\<open>error\<close>, this pointer is an error
  that is not \<^verbatim>\<open>nil\<close>: with an error type that is not empty, \<^verbatim>\<open>Wrap\<close> wraps it as it wraps any
  other error.
\<close>

lemma Wrap_nil: "Wrap None t m trace = Inr None"
  by (simp add: Wrap_def)

lemma Wrap_nil_pointer:
  "t \<noteq> [] \<Longrightarrow>
   Wrap (Some (BackupErrorPtr None)) t m trace =
     Inr (Some (BackupError t m (Some (BackupErrorPtr None)) trace []))"
  by (simp add: Wrap_def and_then_def)


section \<open>Backup identifiers\<close>

lemma GenerateBackupID_example:
  "GenerateBackupID example_now example_now = ''backup-20251229-103045-456789''"
  by (simp add: GenerateBackupID_def Format_20060102_150405_def appendInt_def itoa_def digits.simps
        go_rem_def UnixNano_def wrap64_def example_now_def)

lemma ValidateBackupID_example:
  "ValidateBackupID ''backup-20251229-103045-456789'' = Some (errorString ''backup ID has invalid format'')"
  by (simp add: ValidateBackupID_def HasPrefix_def BackupIDRegex_def digit_class_def in_class_def)

lemma digit_nth: "k < 10 \<Longrightarrow> ''0123456789'' ! k \<in> set ''0123456789''"
  by (rule nth_mem) simp

lemma digits_are_digits: "c \<in> set (digits n) \<Longrightarrow> c \<in> set ''0123456789''"
proof (induction n arbitrary: c rule: digits.induct)
  case (1 n)
  show ?case
  proof (cases "n < 10")
    case True
    with "1.prems" have "c = ''0123456789'' ! n" by (subst (asm) digits.simps) simp
    with True digit_nth show ?thesis by blast
  next
    case False
    with "1.prems" have "c \<in> set (digits (n div 10)) \<or> c = ''0123456789'' ! (n mod 10)"
      by (subst (asm) digits.simps) auto
    then show ?thesis
    proof
      assume "c \<in> set (digits (n div 10))"
      with False "1.IH" show ?thesis by blast
    next
      assume "c = ''0123456789'' ! (n mod 10)"
      moreover have "n mod 10 < 10" by simp
      ultimately show ?thesis using digit_nth by blast
    qed
  qed
qed

lemma digits_nonempty: "digits n \<noteq> []"
  by (subst digits.simps) simp

lemma appendInt_nonneg:
  assumes "0 \<le> x"
  shows "appendInt x w \<noteq> []" "w \<le> length (appendInt x w)"
    "set (appendInt x w) \<subseteq> set ''0123456789''"
proof -
  from assms have eq: "appendInt x w =
      replicate (w - length (digits (nat \<bar>x\<bar>))) CHR ''0'' @ digits (nat \<bar>x\<bar>)"
    by (simp add: appendInt_def Let_def)
  show "appendInt x w \<noteq> []" unfolding eq using digits_nonempty by simp
  show "w \<le> length (appendInt x w)" unfolding eq by simp
  show "set (appendInt x w) \<subseteq> set ''0123456789''"
    unfolding eq using digits_are_digits by auto
qed

lemma nth_of_two:
  assumes "n \<le> length ys" "zs \<noteq> []"
  shows "(ys @ zs @ rest) ! n \<in> set ys \<union> set zs"
proof (cases "n < length ys")
  case True
  then show ?thesis by (simp add: nth_append)
next
  case False
  with assms(1) have "n = length ys" by simp
  with assms(2) have "(ys @ zs @ rest) ! n = hd zs" by (cases zs) (simp_all add: nth_append)
  with assms(2) show ?thesis by simp
qed

lemma BackupIDRegex_dash: "MatchString BackupIDRegex s \<Longrightarrow> s ! 11 = CHR ''-''"
proof -
  assume "MatchString BackupIDRegex s"
  then have "HasPrefix (drop 4 (drop 7 s)) ''-''"
    by (simp add: BackupIDRegex_def HasPrefix_def)
  then show ?thesis
    by (auto simp: HasPrefix_def take_Suc_conv_app_nth)
qed

text \<open>
  At every instant whose year and month are not negative, \<^verbatim>\<open>GenerateBackupID\<close> returns an
  identifier that \<^verbatim>\<open>ValidateBackupID\<close> rejects: where the pattern wants the dash after the
  year, the identifier has a digit.
\<close>

lemma GenerateBackupID_never_valid:
  assumes "0 \<le> Year now1" "0 \<le> Month now1"
  shows "ValidateBackupID (GenerateBackupID now1 now2) \<noteq> None"
proof
  assume "ValidateBackupID (GenerateBackupID now1 now2) = None"
  then have "MatchString BackupIDRegex (GenerateBackupID now1 now2)"
    by (simp add: ValidateBackupID_def split: if_splits)
  then have dash: "GenerateBackupID now1 now2 ! 11 = CHR ''-''" by (rule BackupIDRegex_dash)
  define Y where "Y = appendInt (Year now1) 4"
  define M where "M = appendInt (Month now1) 2"
  define rest where "rest = appendInt (Day now1) 2 @ ''-'' @ appendInt (Hour now1) 2 @
      appendInt (Minute now1) 2 @ appendInt (Second now1) 2 @ ''-'' @
      itoa (go_rem (UnixNano now2) 1000000)"
  have g: "GenerateBackupID now1 now2 = ''backup-'' @ (Y @ M @ rest)"
    by (simp add: GenerateBackupID_def Format_20060102_150405_def Y_def M_def rest_def)
  have "GenerateBackupID now1 now2 ! 11 = (Y @ M @ rest) ! 4"
    unfolding g by (simp add: nth_append)
  moreover have "(Y @ M @ rest) ! 4 \<in> set Y \<union> set M"
    using appendInt_nonneg [OF assms(1), of 4] appendInt_nonneg [OF assms(2), of 2]
    unfolding Y_def M_def by (intro nth_of_two) auto
  moreover have "set Y \<union> set M \<subseteq> set ''0123456789''"
    using appendInt_nonneg(3) [OF assms(1), of 4] appendInt_nonneg(3) [OF assms(2), of 2]
    unfolding Y_def M_def by blast
  ultimately have "CHR ''-'' \<in> set ''0123456789''" using dash by auto
  then show False by simp
qed

text \<open>
  Claim C1. Every identifier that \<^verbatim>\<open>GenerateBackupID\<close> returns should be accepted by
  \<^verbatim>\<open>ValidateBackupID\<close>. At 2025-12-29 10:30:45.123456789 UTC the code returns
  \<^verbatim>\<open>backup-20251229-103045-456789\<close>, which \<^verbatim>\<open>ValidateBackupID\<close> rejects: the date has no
  dashes and the suffix is a decimal number, not eight hexadecimal digits.
\<close>

theorem GenerateBackupID_rejected_by_ValidateBackupID:
  "GenerateBackupID example_now example_now = ''backup-20251229-103045-456789'' \<and>
   ValidateBackupID (GenerateBackupID example_now example_now) =
     Some (errorString ''backup ID has invalid format'')"
  by (simp only: GenerateBackupID_example ValidateBackupID_example)

section \<open>Subprocess arguments\<close>

lemma valid_examples:
  "ValidateDatabaseName ''shop'' = None"
  "ValidateTableName ''orders'' = None"
  "ValidateTableName ''users'' = None"
  by (simp_all add: ValidateDatabaseName_def ValidateTableName_def HasPrefix_def
        DatabaseNameRegex_def TableNameRegex_def MatchString_Plus in_class_def
        del: MatchString.simps)

lemma mongo_dump_example:
  "buildMongoDumpArgs example_config example_backup =
     Inr [''--host'', ''db.internal'', ''--port'', ''27017'', ''--out'', ''/var/backups/shop'',
          ''--gzip'', ''--username'', ''backup'', ''--password'', ''s3cret'', ''--db'', ''shop'',
          ''--collection'', ''orders'', ''--collection'', ''users'', ''--oplog'',
          ''--numParallelCollections'', ''4'']"
  by (simp add: buildMongoDumpArgs_def example_config_def example_backup_def valid_examples
        itoa_def digits.simps)

lemma mongo_dump_example2:
  "buildMongoDumpArgs (example_config\<lparr>Password := ''hunter2''\<rparr>) example_backup =
     Inr [''--host'', ''db.internal'', ''--port'', ''27017'', ''--out'', ''/var/backups/shop'',
          ''--gzip'', ''--username'', ''backup'', ''--password'', ''hunter2'', ''--db'', ''shop'',
          ''--collection'', ''orders'', ''--collection'', ''users'', ''--oplog'',
          ''--numParallelCollections'', ''4'']"
  by (simp add: buildMongoDumpArgs_def example_config_def example_backup_def valid_examples
        itoa_def digits.simps)

lemma mongo_restore_example:
  "buildMongoRestoreArgs example_config example_restore =
     Inr [''--host'', ''db.internal'', ''--port'', ''27017'',
          ''--gzip'', ''--username'', ''backup'', ''--password'', ''s3cret'', ''--db'', ''shop'',
          ''--drop'', ''/var/backups/shop'']"
  by (simp add: buildMongoRestoreArgs_def example_config_def example_restore_def valid_examples
        itoa_def digits.simps)

lemma add_collections_mono:
  "add_collections cs args = Inr args' \<Longrightarrow> set args \<subseteq> set args'"
proof (induction cs arbitrary: args)
  case Nil
  then show ?case by simp
next
  case (Cons c cs)
  then show ?case by (fastforce split: option.splits)
qed

text \<open>With a password configured, every argument list that the MongoDB driver builds holds it.\<close>

lemma mongo_dump_password_in_argv:
  assumes "Password config \<noteq> []" "buildMongoDumpArgs config opts = Inr args"
  shows "Password config \<in> set args"
  using assms
  unfolding buildMongoDumpArgs_def Let_def
  by (auto split: if_splits option.splits sum.splits dest!: add_collections_mono)

lemma mongo_restore_password_in_argv:
  assumes "Password config \<noteq> []" "buildMongoRestoreArgs config opts = Inr args"
  shows "Password config \<in> set args"
  using assms
  unfolding buildMongoRestoreArgs_def Let_def
  by (auto split: if_splits option.splits sum.splits)

text \<open>The MySQL driver builds its arguments without the password, which it puts into \<^verbatim>\<open>MYSQL_PWD\<close>.\<close>

lemma mysql_dump_args_password_independent:
  "buildMySQLDumpArgs (config\<lparr>Password := p\<rparr>) opts = buildMySQLDumpArgs config opts"
  by (simp add: buildMySQLDumpArgs_def)

lemma mysql_StreamBackup_password_in_env:
  "buildMySQLDumpArgs config opts = Inr args \<Longrightarrow>
   commands (snd (mysql_StreamBackup config opts sys w)) =
     commands w @ [\<lparr>Path = ''mysqldump'', Args = ''mysqldump'' # args,
                     Env = Environ sys @ [''MYSQL_PWD='' @ Password config]\<rparr>]"
  by (simp add: mysql_StreamBackup_def Run_def Command_def Let_def split: option.splits)

text \<open>
  Claim C2. The password should never be in the argument list of a dump or restore
  subprocess: two configurations that differ only in the password should give the same
  arguments. The MongoDB driver appends \<^verbatim>\<open>--password\<close> and the password to the arguments
  of \<^verbatim>\<open>mongodump\<close> and of \<^verbatim>\<open>mongorestore\<close>; with the passwords \<^verbatim>\<open>s3cret\<close> and \<^verbatim>\<open>hunter2\<close>
  the argument lists differ.
\<close>

theorem mongodb_password_in_argv:
  "buildMongoDumpArgs example_config example_backup =
     Inr [''--host'', ''db.internal'', ''--port'', ''27017'', ''--out'', ''/var/backups/shop'',
          ''--gzip'', ''--username'', ''backup'', ''--password'', ''s3cret'', ''--db'', ''shop'',
          ''--collection'', ''orders'', ''--collection'', ''users'', ''--oplog'',
          ''--numParallelCollections'', ''4''] \<and>
   buildMongoDumpArgs (example_config\<lparr>Password := ''hunter2''\<rparr>) example_backup =
     Inr [''--host'', ''db.internal'', ''--port'', ''27017'', ''--out'', ''/var/backups/shop'',
          ''--gzip'', ''--username'', ''backup'', ''--password'', ''hunter2'', ''--db'', ''shop'',
          ''--collection'', ''orders'', ''--collection'', ''users'', ''--oplog'',
          ''--numParallelCollections'', ''4''] \<and>
   buildMongoRestoreArgs example_config example_restore =
     Inr [''--host'', ''db.internal'', ''--port'', ''27017'',
          ''--gzip'', ''--username'', ''backup'', ''--password'', ''s3cret'', ''--db'', ''shop'',
          ''--drop'', ''/var/backups/shop'']"
  by (simp only: mongo_dump_example mongo_dump_example2 mongo_restore_example)

lemma invalid_example:
  "ValidateDatabaseName ''--defaults-file=/tmp/x'' = Some (errorString ''database name cannot start with dash'')"
  by (simp add: ValidateDatabaseName_def HasPrefix_def)

lemma mysql_stream_restore_example:
  "mysql_StreamRestore example_mysql_config (example_restore\<lparr>RestoreOptions.Database := ''--defaults-file=/tmp/x''\<rparr>)
       example_os \<lparr>commands = [], written = []\<rparr> =
     (None, \<lparr>commands = [\<lparr>Path = ''mysql'',
                 Args = [''mysql'', ''--host=db.internal'', ''--port=3306'', ''--user=backup'', ''--defaults-file=/tmp/x''],
                 Env = [''PATH=/usr/bin'', ''MYSQL_PWD=s3cret'']\<rparr>], written = []\<rparr>)"
  by (simp add: mysql_StreamRestore_def Run_def Command_def example_mysql_config_def example_restore_def
        example_os_def itoa_def digits.simps)

text \<open>
  \<^verbatim>\<open>Restore\<close> of the same driver never panics: it wraps errors that are not \<^verbatim>\<open>nil\<close>, with a
  type that is not empty.
\<close>

lemma Wrap_returns:
  "errType \<noteq> [] \<Longrightarrow>
   Wrap (Some e) errType message trace = Inr (Some (BackupError errType message (Some e) trace []))"
  by (simp add: Wrap_def and_then_def split: option.splits)

lemma ErrDatabaseRestore_returns:
  "ErrDatabaseRestore (Some e) trace =
     Inr (Some (BackupError ''DATABASE'' ''failed to restore database'' (Some e) trace []))"
  by (simp add: ErrDatabaseRestore_def ErrorTypeDatabase_def Wrap_returns)

lemma mysql_Restore_returns:
  "\<exists>r. mysql_Restore config opts now1 now2 trace sys w = Inr r"
  by (simp add: mysql_Restore_def ErrDatabaseRestore_returns WithMetadata_def and_then_def Let_def
        split: stat_result.splits option.splits)

text \<open>\<^verbatim>\<open>Restore\<close> validates the name and starts nothing when it is invalid.\<close>

lemma mysql_Restore_validates:
  assumes "RestoreOptions.Database opts \<noteq> []"
    "ValidateDatabaseName (RestoreOptions.Database opts) = Some verr"
  shows "\<exists>result err. mysql_Restore config opts now1 now2 trace sys w = Inr ((result, Some err), w)"
  using assms
  by (simp add: mysql_Restore_def ErrDatabaseRestore_returns WithMetadata_def and_then_def Let_def
        split: stat_result.splits)

text \<open>\<^verbatim>\<open>StreamRestore\<close> hands every non-empty name to \<^verbatim>\<open>mysql\<close>.\<close>

lemma mysql_StreamRestore_never_validates:
  "RestoreOptions.Database opts \<noteq> [] \<Longrightarrow>
   \<exists>cmd. commands (snd (mysql_StreamRestore config opts sys w)) = commands w @ [cmd]
       \<and> RestoreOptions.Database opts \<in> set (Args cmd)"
  by (auto simp: mysql_StreamRestore_def Run_def Let_def Command_def split: option.splits)

text \<open>
  Claim C3. The MySQL driver's \<^verbatim>\<open>StreamRestore\<close> should put the database name into the
  arguments of \<^verbatim>\<open>mysql\<close> only when \<^verbatim>\<open>ValidateDatabaseName\<close> accepts it. For the name
  \<^verbatim>\<open>--defaults-file=/tmp/x\<close>, which \<^verbatim>\<open>ValidateDatabaseName\<close> rejects, the code starts
  \<^verbatim>\<open>mysql\<close> with the name as its last argument.
\<close>

theorem mysql_StreamRestore_unvalidated_name_in_argv:
  "ValidateDatabaseName ''--defaults-file=/tmp/x'' =
     Some (errorString ''database name cannot start with dash'') \<and>
   mysql_StreamRestore example_mysql_config
       (example_restore\<lparr>RestoreOptions.Database := ''--defaults-file=/tmp/x''\<rparr>)
       example_os \<lparr>commands = [], written = []\<rparr> =
     (None, \<lparr>commands = [\<lparr>Path = ''mysql'',
                 Args = [''mysql'', ''--host=db.internal'', ''--port=3306'', ''--user=backup'',
                         ''--defaults-file=/tmp/x''],
                 Env = [''PATH=/usr/bin'', ''MYSQL_PWD=s3cret'']\<rparr>], written = []\<rparr>)"
  by (simp only: invalid_example mysql_stream_restore_example)

section \<open>Streaming with the MongoDB driver\<close>

lemma failed_dump_error:
  "ErrDatabaseBackup (Some (errorString ''exit status 1'')) ''trace'' =
     Inr (Some (BackupError ''DATABASE'' ''failed to create database backup''
                  (Some (errorString ''exit status 1'')) ''trace'' []))"
  by (simp add: ErrDatabaseBackup_def ErrorTypeDatabase_def Wrap_def and_then_def)

lemma declared_type_not_Unsupported:
  "Type b \<in> set declared_types \<Longrightarrow> \<not> Unsupported (BackupErrorPtr (Some b))"
  by (simp add: Unsupported_def)

text \<open>
  Claim C7, as the code has it. For every input, \<^verbatim>\<open>StreamBackup\<close> and \<^verbatim>\<open>StreamRestore\<close> of the
  MongoDB driver return a \<^verbatim>\<open>*BackupError\<close> that is not \<^verbatim>\<open>nil\<close>, of type \<^verbatim>\<open>DATABASE\<close>, with no
  cause, whose message says that streaming is not implemented, and do nothing else: no
  byte is written to the writer and no subprocess is started.
\<close>

theorem mongodb_streaming_not_implemented:
  "mongodb_StreamBackup config bopts trace sys w =
     (Some (BackupErrorPtr (Some (BackupError ''DATABASE''
        ''MongoDB streaming backup not implemented - use file-based backup'' None trace []))),
      w) \<and>
   mongodb_StreamRestore config ropts reader trace sys w =
     (Some (BackupErrorPtr (Some (BackupError ''DATABASE''
        ''MongoDB streaming restore not implemented - use file-based restore'' None trace []))),
      w)"
  by (simp add: mongodb_StreamBackup_def mongodb_StreamRestore_def New_def ErrorTypeDatabase_def)

text \<open>
  The error of a streaming backup is not of a kind of its own: its type is \<^verbatim>\<open>DATABASE\<close>, one
  of the declared types, and the type of the error of a dump that failed.
\<close>

theorem mongodb_streaming_error_is_database_error:
  "fst (mongodb_StreamBackup example_config example_backup ''trace'' example_os
          \<lparr>commands = [], written = []\<rparr>) =
     Some (BackupErrorPtr (Some (BackupError ''DATABASE''
        ''MongoDB streaming backup not implemented - use file-based backup'' None ''trace'' []))) \<and>
   \<not> Unsupported (BackupErrorPtr (Some (BackupError ''DATABASE''
        ''MongoDB streaming backup not implemented - use file-based backup'' None ''trace'' []))) \<and>
   fst (mongodb_StreamRestore example_config example_restore [] ''trace'' example_os
          \<lparr>commands = [], written = []\<rparr>) =
     Some (BackupErrorPtr (Some (BackupError ''DATABASE''
        ''MongoDB streaming restore not implemented - use file-based restore'' None ''trace'' []))) \<and>
   \<not> Unsupported (BackupErrorPtr (Some (BackupError ''DATABASE''
        ''MongoDB streaming restore not implemented - use file-based restore'' None ''trace'' []))) \<and>
   ErrDatabaseBackup (Some (errorString ''exit status 1'')) ''trace'' =
     Inr (Some (BackupError ''DATABASE'' ''failed to create database backup''
                  (Some (errorString ''exit status 1'')) ''trace'' []))"
  by (simp add: mongodb_StreamBackup_def mongodb_StreamRestore_def New_def ErrorTypeDatabase_def
        Unsupported_def declared_types_def failed_dump_error)

section \<open>Path sanitising\<close>

subsection \<open>Cleaned paths\<close>

lemma splitc_no_sep: "c \<in> set (splitc s) \<Longrightarrow> CHR ''/'' \<notin> set c"
proof (induction s arbitrary: c)
  case Nil
  then show ?case by simp
next
  case (Cons a s)
  show ?case
  proof (cases "a = CHR ''/''")
    case True
    with Cons show ?thesis by auto
  next
    case False
    show ?thesis
    proof (cases "splitc s")
      case Nil
      with False Cons.prems show ?thesis by simp
    next
      case (Cons w ws)
      with False Cons.prems Cons.IH show ?thesis by auto
    qed
  qed
qed

lemma canon_Nil: "canon rooted []"
  by (simp add: canon_def)

lemma canon_snoc_real:
  assumes "canon rooted out" "c \<noteq> []" "c \<noteq> ''.''" "c \<noteq> ''..''" "CHR ''/'' \<notin> set c"
  shows "canon rooted (out @ [c])"
proof -
  have "set us \<subseteq> {''..''}" if "out @ [c] = us @ ''..'' # vs" for us vs
  proof (cases vs rule: rev_cases)
    case Nil
    with that assms(4) show ?thesis by simp
  next
    case (snoc vs' x)
    with that have "out = us @ ''..'' # vs'" by simp
    with assms(1) show ?thesis unfolding canon_def by blast
  qed
  with assms show ?thesis unfolding canon_def by auto
qed

lemma canon_all_dotdot:
  assumes "canon rooted out" "out \<noteq> []" "last out = ''..''"
  shows "set out \<subseteq> {''..''}"
proof (cases out rule: rev_cases)
  case Nil
  with assms(2) show ?thesis by simp
next
  case (snoc ys y)
  with assms(3) have out: "out = ys @ ''..'' # []" by simp
  with assms(1) have "set ys \<subseteq> {''..''}" unfolding canon_def by blast
  then show ?thesis by (simp add: out)
qed

lemma canon_snoc_dotdot:
  assumes "canon False out" "out = [] \<or> last out = ''..''"
  shows "canon False (out @ [''..''])"
proof -
  have all: "set out \<subseteq> {''..''}"
    using assms canon_all_dotdot by (cases "out = []") auto
  have "set us \<subseteq> {''..''}" if "out @ [''..''] = us @ ''..'' # vs" for us vs
  proof (cases vs rule: rev_cases)
    case Nil
    with that have "us = out" by simp
    with all show ?thesis by simp
  next
    case (snoc vs' x)
    with that have "out = us @ ''..'' # vs'" by simp
    with assms(1) show ?thesis unfolding canon_def by blast
  qed
  moreover have "\<forall>c \<in> set (out @ [''..'']). c \<noteq> [] \<and> c \<noteq> ''.'' \<and> CHR ''/'' \<notin> set c"
    using assms(1) unfolding canon_def by auto
  ultimately show ?thesis unfolding canon_def by blast
qed

lemma canon_butlast:
  assumes "canon rooted out"
  shows "canon rooted (butlast out)"
proof (cases out rule: rev_cases)
  case Nil
  with assms show ?thesis by simp
next
  case (snoc ys y)
  from assms have a1: "\<forall>c \<in> set out. c \<noteq> [] \<and> c \<noteq> ''.'' \<and> CHR ''/'' \<notin> set c"
    and a2: "rooted \<longrightarrow> ''..'' \<notin> set out"
    and a3: "\<And>us vs. out = us @ ''..'' # vs \<Longrightarrow> set us \<subseteq> {''..''}"
    unfolding canon_def by blast+
  have sub: "set ys \<subseteq> set out" using snoc by auto
  have b1: "\<forall>c \<in> set ys. c \<noteq> [] \<and> c \<noteq> ''.'' \<and> CHR ''/'' \<notin> set c"
    using a1 sub by blast
  have b2: "rooted \<longrightarrow> ''..'' \<notin> set ys" using a2 sub by blast
  have b3: "set us \<subseteq> {''..''}" if "ys = us @ ''..'' # vs" for us vs
  proof -
    from that snoc have "out = us @ ''..'' # (vs @ [y])" by simp
    then show ?thesis by (rule a3)
  qed
  from b1 b2 b3 have "canon rooted ys" unfolding canon_def by blast
  with snoc show ?thesis by simp
qed

lemma canon_clean_elems:
  assumes "canon rooted out" "\<forall>c \<in> set cs. CHR ''/'' \<notin> set c"
  shows "canon rooted (clean_elems rooted out cs)"
  using assms
proof (induction cs arbitrary: out)
  case Nil
  then show ?case by simp
next
  case (Cons c cs)
  from Cons.prems have cs: "\<forall>c \<in> set cs. CHR ''/'' \<notin> set c" and c: "CHR ''/'' \<notin> set c"
    by simp_all
  show ?case
  proof (cases "c = [] \<or> c = ''.''")
    case True
    with Cons.IH [OF Cons.prems(1) cs] show ?thesis by auto
  next
    case False
    note real = this
    show ?thesis
    proof (cases "c = ''..''")
      case True
      show ?thesis
      proof (cases "out \<noteq> [] \<and> last out \<noteq> ''..''")
        case True
        with \<open>c = ''..''\<close> Cons.IH [OF canon_butlast [OF Cons.prems(1)] cs] show ?thesis
          by simp
      next
        case False
        note nb = this
        show ?thesis
        proof (cases rooted)
          case True
          with nb \<open>c = ''..''\<close> Cons.IH [OF Cons.prems(1) cs] show ?thesis by auto
        next
          case False
          with Cons.prems(1) nb have "canon rooted (out @ [''..''])"
            using canon_snoc_dotdot by auto
          from Cons.IH [OF this cs] nb False \<open>c = ''..''\<close> show ?thesis by auto
        qed
      qed
    next
      case False
      with real c Cons.prems(1) have "canon rooted (out @ [c])"
        by (intro canon_snoc_real) auto
      from Cons.IH [OF this cs] real False show ?thesis by simp
    qed
  qed
qed

lemma clean_elems_canon_id:
  "canon rooted (out @ cs) \<Longrightarrow> clean_elems rooted out cs = out @ cs"
proof (induction cs arbitrary: out)
  case Nil
  then show ?case by simp
next
  case (Cons c cs)
  from Cons.prems have c: "c \<noteq> []" "c \<noteq> ''.''" unfolding canon_def by auto
  from Cons.prems have "canon rooted ((out @ [c]) @ cs)" by simp
  then have IH: "clean_elems rooted (out @ [c]) cs = (out @ [c]) @ cs" by (rule Cons.IH)
  show ?case
  proof (cases "c = ''..''")
    case True
    from Cons.prems have a2: "rooted \<longrightarrow> ''..'' \<notin> set (out @ c # cs)"
      and a3: "\<And>us vs. out @ c # cs = us @ ''..'' # vs \<Longrightarrow> set us \<subseteq> {''..''}"
      unfolding canon_def by blast+
    from a2 True have nr: "\<not> rooted" by simp
    from True have "set out \<subseteq> {''..''}" by (intro a3 [of out cs]) simp
    then have "out = [] \<or> last out = ''..''"
      by (cases out rule: rev_cases) auto
    with True nr have "clean_elems rooted out (c # cs) = clean_elems rooted (out @ [c]) cs"
      by auto
    with IH show ?thesis by simp
  next
    case False
    with c have "clean_elems rooted out (c # cs) = clean_elems rooted (out @ [c]) cs"
      by simp
    with IH show ?thesis by simp
  qed
qed

lemma Clean_render:
  "\<exists>cs. canon (path \<noteq> [] \<and> hd path = CHR ''/'') cs \<and>
        Clean path = render (path \<noteq> [] \<and> hd path = CHR ''/'') cs"
proof (cases "path = []")
  case True
  then show ?thesis by (auto simp: Clean_def render_def canon_Nil intro: exI [of _ "[]"])
next
  case False
  have "canon (hd path = CHR ''/'') (clean_elems (hd path = CHR ''/'') [] (splitc path))"
    by (rule canon_clean_elems [OF canon_Nil]) (simp add: splitc_no_sep)
  with False show ?thesis by (auto simp: Clean_def Let_def)
qed

lemma splitc_no_sep_id: "CHR ''/'' \<notin> set c \<Longrightarrow> splitc c = [c]"
  by (induction c) auto

lemma splitc_append_sep:
  "CHR ''/'' \<notin> set c \<Longrightarrow> splitc (c @ CHR ''/'' # s) = c # splitc s"
  by (induction c) auto

lemma join_sep_Cons:
  "join_sep (c # cs) = c @ (if cs = [] then [] else CHR ''/'' # join_sep cs)"
  by (cases cs) simp_all

lemma splitc_join_sep:
  "cs \<noteq> [] \<Longrightarrow> \<forall>c \<in> set cs. CHR ''/'' \<notin> set c \<Longrightarrow> splitc (join_sep cs) = cs"
proof (induction cs)
  case Nil
  then show ?case by simp
next
  case (Cons c cs)
  show ?case
  proof (cases "cs = []")
    case True
    with Cons.prems show ?thesis by (simp add: splitc_no_sep_id)
  next
    case False
    with Cons have "splitc (join_sep cs) = cs" by simp
    with False Cons.prems show ?thesis by (simp add: join_sep_Cons splitc_append_sep)
  qed
qed

lemma canon_elems:
  "canon rooted cs \<Longrightarrow> c \<in> set cs \<Longrightarrow> c \<noteq> [] \<and> c \<noteq> ''.'' \<and> CHR ''/'' \<notin> set c"
  unfolding canon_def by blast

lemma canon_tl: "canon rooted (c # cs) \<Longrightarrow> canon rooted cs"
proof -
  assume a: "canon rooted (c # cs)"
  have "set us \<subseteq> {''..''}" if "cs = us @ ''..'' # vs" for us vs
  proof -
    from that have "c # cs = (c # us) @ ''..'' # vs" by simp
    with a have "set (c # us) \<subseteq> {''..''}" unfolding canon_def by blast
    then show ?thesis by simp
  qed
  moreover from a have "\<forall>c \<in> set cs. c \<noteq> [] \<and> c \<noteq> ''.'' \<and> CHR ''/'' \<notin> set c"
    unfolding canon_def by simp
  moreover from a have "rooted \<longrightarrow> ''..'' \<notin> set cs" unfolding canon_def by simp
  ultimately show ?thesis unfolding canon_def by blast
qed

lemma join_sep_nonempty:
  "canon rooted cs \<Longrightarrow> cs \<noteq> [] \<Longrightarrow> join_sep cs \<noteq> [] \<and> hd (join_sep cs) \<noteq> CHR ''/''"
proof (cases cs)
  case Nil
  assume "cs \<noteq> []"
  with Nil show ?thesis by simp
next
  case (Cons c cs')
  assume "canon rooted cs"
  with Cons have "c \<noteq> []" "CHR ''/'' \<notin> set c" using canon_elems [of rooted cs c] by auto
  then have "hd c \<noteq> CHR ''/''" by (cases c) auto
  with \<open>c \<noteq> []\<close> Cons show ?thesis by (simp add: join_sep_Cons)
qed

lemma join_sep_no_trail:
  "canon rooted cs \<Longrightarrow> join_sep cs = [] \<or> last (join_sep cs) \<noteq> CHR ''/''"
proof (induction cs)
  case Nil
  then show ?case by simp
next
  case (Cons c cs)
  from Cons.prems have c: "c \<noteq> []" "CHR ''/'' \<notin> set c"
    using canon_elems [of rooted "c # cs" c] by auto
  show ?case
  proof (cases "cs = []")
    case True
    from c have "last c \<noteq> CHR ''/''" using last_in_set by metis
    with True c show ?thesis by simp
  next
    case False
    from Cons.prems have canon: "canon rooted cs" by (rule canon_tl)
    with False have ne: "join_sep cs \<noteq> []" using join_sep_nonempty by blast
    with Cons.IH [OF canon] have "last (join_sep cs) \<noteq> CHR ''/''" by simp
    with False ne show ?thesis by (simp add: join_sep_Cons)
  qed
qed

lemma Clean_render_id:
  assumes "canon rooted cs"
  shows "Clean (render rooted cs) = render rooted cs"
proof (cases rooted)
  case True
  show ?thesis
  proof (cases "cs = []")
    case True
    with \<open>rooted\<close> show ?thesis by (simp add: Clean_def render_def)
  next
    case False
    from assms have nosep: "\<forall>c \<in> set cs. CHR ''/'' \<notin> set c" unfolding canon_def by blast
    have "splitc (CHR ''/'' # join_sep cs) = [] # cs"
      using splitc_join_sep [OF False nosep] by simp
    moreover have "clean_elems True [] cs = cs"
      using clean_elems_canon_id [of True "[]" cs] assms True by simp
    ultimately show ?thesis using True by (simp add: Clean_def render_def)
  qed
next
  case False
  show ?thesis
  proof (cases "cs = []")
    case True
    with \<open>\<not> rooted\<close> show ?thesis by (simp add: Clean_def render_def)
  next
    case ne: False
    from assms have nosep: "\<forall>c \<in> set cs. CHR ''/'' \<notin> set c" unfolding canon_def by blast
    have sp: "splitc (join_sep cs) = cs" by (rule splitc_join_sep [OF ne nosep])
    have ce: "clean_elems False [] cs = cs"
      using clean_elems_canon_id [of False "[]" cs] assms False by simp
    from join_sep_nonempty [OF assms ne] sp ce False ne show ?thesis
      by (simp add: Clean_def render_def)
  qed
qed

lemma Clean_idem: "Clean (Clean p) = Clean p"
  using Clean_render [of p] Clean_render_id by auto

lemma Clean_nonempty: "Clean p \<noteq> []"
proof -
  obtain cs where c: "canon (p \<noteq> [] \<and> hd p = CHR ''/'') cs"
    and r: "Clean p = render (p \<noteq> [] \<and> hd p = CHR ''/'') cs"
    using Clean_render by blast
  show ?thesis
  proof (cases "cs = []")
    case True
    with r show ?thesis by (simp add: render_def)
  next
    case False
    with join_sep_nonempty [OF c] r show ?thesis by (simp add: render_def)
  qed
qed

subsection \<open>The relative path\<close>

lemma elem_decomp:
  "(s = elem s \<and> after_elem s = []) \<or> s = elem s @ CHR ''/'' # after_elem s"
proof (cases "dropWhile (\<lambda>c. c \<noteq> CHR ''/'') s")
  case Nil
  then have "\<forall>x \<in> set s. x \<noteq> CHR ''/''" by simp
  then have "elem s = s" by (simp add: elem_def)
  moreover from Nil have "after_elem s = []" by (simp only: after_elem_def drop_Nil)
  ultimately show ?thesis by simp
next
  case (Cons x xs)
  then have "\<not> (hd (dropWhile (\<lambda>c. c \<noteq> CHR ''/'') s) \<noteq> CHR ''/'')"
    using hd_dropWhile [of "\<lambda>c. c \<noteq> CHR ''/''" s] by simp
  with Cons have x: "x = CHR ''/''" by simp
  have "s = takeWhile (\<lambda>c. c \<noteq> CHR ''/'') s @ dropWhile (\<lambda>c. c \<noteq> CHR ''/'') s" by simp
  with Cons x have "s = elem s @ CHR ''/'' # after_elem s"
    by (simp add: elem_def after_elem_def)
  then show ?thesis ..
qed

lemma elem_no_sep: "CHR ''/'' \<notin> set (elem s)"
  unfolding elem_def by (auto dest: set_takeWhileD)

lemma elem_Nil [simp]: "elem [] = []" "after_elem [] = []"
  by (simp_all add: elem_def after_elem_def)

lemma elem_sep [simp]: "elem (CHR ''/'' # s) = []" "after_elem (CHR ''/'' # s) = s"
  by (simp_all add: elem_def after_elem_def)

lemma length_after_elem_le: "length (after_elem s) \<le> length s"
proof -
  from elem_decomp [of s] have "length s = length (elem s) \<and> after_elem s = [] \<or>
      length s = length (elem s @ CHR ''/'' # after_elem s)"
    by metis
  then show ?thesis by auto
qed

lemma length_after_elem_less: "s \<noteq> [] \<Longrightarrow> length (after_elem s) < length s"
proof -
  assume ne: "s \<noteq> []"
  from elem_decomp [of s] have "length s = length (elem s) \<and> after_elem s = [] \<or>
      length s = length (elem s @ CHR ''/'' # after_elem s)"
    by metis
  with ne show ?thesis by auto
qed

lemma no_trail_after_elem: "no_trail s \<Longrightarrow> no_trail (after_elem s)"
proof -
  assume nt: "no_trail s"
  from elem_decomp [of s] show ?thesis
  proof
    assume "s = elem s \<and> after_elem s = []"
    then show ?thesis by (simp add: no_trail_def)
  next
    assume d: "s = elem s @ CHR ''/'' # after_elem s"
    show ?thesis
    proof (cases "after_elem s = []")
      case True
      then show ?thesis by (simp add: no_trail_def)
    next
      case False
      from d have "last s = last (elem s @ CHR ''/'' # after_elem s)" by simp
      with False have "last s = last (after_elem s)" by simp
      moreover from d have "s \<noteq> []" by auto
      ultimately show ?thesis using nt by (simp add: no_trail_def)
    qed
  qed
qed

lemma after_elem_differ:
  assumes "no_trail b" "no_trail t" "b \<noteq> t" "elem t = elem b"
  shows "after_elem b \<noteq> after_elem t"
proof
  assume eq: "after_elem b = after_elem t"
  from elem_decomp [of b] elem_decomp [of t] assms(4) eq
  consider "b = elem b" "t = elem b" "after_elem b = []"
    | "b = elem b" "after_elem b = []" "t = elem b @ [CHR ''/'']"
    | "t = elem b" "after_elem b = []" "b = elem b @ [CHR ''/'']"
    | "b = elem b @ CHR ''/'' # after_elem b" "t = elem b @ CHR ''/'' # after_elem b"
    by metis
  then show False
  proof cases
    case 1
    with assms(3) show False by simp
  next
    case 2
    from 2(3) obtain e where "t = e @ [CHR ''/'']" ..
    then have "t \<noteq> []" "last t = CHR ''/''" by simp_all
    with assms(2) show False by (simp add: no_trail_def)
  next
    case 3
    from 3(3) obtain e where "b = e @ [CHR ''/'']" ..
    then have "b \<noteq> []" "last b = CHR ''/''" by simp_all
    with assms(1) show False by (simp add: no_trail_def)
  next
    case 4
    with assms(3) show False by simp
  qed
qed

lemma rel_loop_terminates:
  "no_trail b \<Longrightarrow> no_trail t \<Longrightarrow> b \<noteq> t \<Longrightarrow> rel_loop b t \<noteq> None"
proof (induction "length b + length t" arbitrary: b t rule: less_induct)
  case less
  show ?case
  proof (cases "elem t \<noteq> elem b")
    case True
    then show ?thesis by (subst rel_loop.simps) simp
  next
    case False
    then have same: "elem t = elem b" by simp
    from less.prems(3) have "b \<noteq> [] \<or> t \<noteq> []" by auto
    then have "length (after_elem b) + length (after_elem t) < length b + length t"
      using length_after_elem_le [of b] length_after_elem_le [of t]
        length_after_elem_less [of b] length_after_elem_less [of t]
      by (cases "b = []") auto
    moreover have "no_trail (after_elem b)" "no_trail (after_elem t)"
      using less.prems no_trail_after_elem by blast+
    moreover have "after_elem b \<noteq> after_elem t"
      using less.prems same by (rule after_elem_differ)
    ultimately have "rel_loop (after_elem b) (after_elem t) \<noteq> None"
      by (rule less.hyps)
    with same show ?thesis by (subst rel_loop.simps) simp
  qed
qed

lemma follows_step:
  assumes same: "elem t = elem b" and f: "follows (after_elem b) (after_elem t) tr"
    and tr: "tr \<noteq> []"
  shows "follows b t tr"
proof -
  from f obtain m where m: "after_elem t = after_elem b @ m @ tr" "set m \<subseteq> {CHR ''/''}"
      "m = [] \<longrightarrow> after_elem b = [] \<or> last (after_elem b) = CHR ''/''"
    unfolding follows_def by blast
  from m(1) tr have atne: "after_elem t \<noteq> []" by simp
  with elem_decomp [of t] same have t: "t = elem b @ CHR ''/'' # after_elem t" by metis
  from elem_decomp [of b] show ?thesis
  proof
    assume b: "b = elem b \<and> after_elem b = []"
    with m(1) t have "t = b @ (CHR ''/'' # m) @ tr" by simp
    with m(2) show ?thesis unfolding follows_def by (intro exI [of _ "CHR ''/'' # m"]) simp
  next
    assume b: "b = elem b @ CHR ''/'' # after_elem b"
    with m(1) t have eq: "t = b @ m @ tr" by simp
    have "b = [] \<or> last b = CHR ''/''" if "m = []"
    proof (cases "after_elem b = []")
      case True
      with b have "b = elem b @ [CHR ''/'']" by simp
      then obtain e where "b = e @ [CHR ''/'']" ..
      then have "last b = CHR ''/''" by simp
      then show ?thesis ..
    next
      case False
      with that m(3) have l: "last (after_elem b) = CHR ''/''" by simp
      have "last (elem b @ CHR ''/'' # after_elem b) = last (after_elem b)" using False by simp
      with b l have "last b = CHR ''/''" by metis
      then show ?thesis ..
    qed
    with eq m(2) show ?thesis unfolding follows_def by blast
  qed
qed

lemma rel_loop_result:
  assumes "rel_loop b t = Some y"
  shows "loop_post b t y"
proof (rule rel_loop.raw_induct [where P = loop_post, OF _ assms])
  fix f b t y
  assume IH: "\<And>b t y. f b t = Some y \<Longrightarrow> loop_post b t y"
    and eq: "(if elem t \<noteq> elem b then Some (b, elem b, t)
              else f (after_elem b) (after_elem t)) = Some y"
  show "loop_post b t y"
  proof (cases "elem t \<noteq> elem b")
    case True
    with eq have y: "y = (b, elem b, t)" by simp
    have "follows [] t t" unfolding follows_def by (intro exI [of _ "[]"]) simp
    then have "b = [] \<longrightarrow> follows b t t" by blast
    with True show ?thesis unfolding y loop_post_def by simp
  next
    case False
    with eq have "f (after_elem b) (after_elem t) = Some y" by simp
    then have post: "loop_post (after_elem b) (after_elem t) y" by (rule IH)
    obtain brest bcur trest where y: "y = (brest, bcur, trest)" by (cases y)
    from post have ih: "elem trest \<noteq> elem brest" "bcur = elem brest"
        "brest = [] \<longrightarrow> follows (after_elem b) (after_elem t) trest"
      unfolding y loop_post_def by simp_all
    have "follows b t trest" if "brest = []"
    proof -
      from that ih(1) have ne: "trest \<noteq> []" by auto
      from False have same: "elem t = elem b" by simp
      from that ih(3) have fl: "follows (after_elem b) (after_elem t) trest" by blast
      from same fl ne show ?thesis by (rule follows_step)
    qed
    with ih show ?thesis unfolding y loop_post_def by simp
  qed
qed

lemma follows_within:
  assumes "follows b t tr" "b \<noteq> []"
  shows "within b t"
proof -
  from assms(1) obtain m where m: "t = b @ m @ tr" "set m \<subseteq> {CHR ''/''}"
      "m = [] \<longrightarrow> b = [] \<or> last b = CHR ''/''"
    unfolding follows_def by blast
  from m(1) have p: "prefix b t" by (simp add: prefix_def)
  show ?thesis
  proof (cases m)
    case Nil
    with m(3) assms(2) have "last b = CHR ''/''" by simp
    with p assms(2) show ?thesis by (simp add: within_def)
  next
    case (Cons x xs)
    with m(2) have "x = CHR ''/''" by simp
    with Cons m(1) have "length b < length t" "t ! length b = CHR ''/''"
      by (simp_all add: nth_append)
    with p show ?thesis by (simp add: within_def)
  qed
qed

subsection \<open>Accepted paths lie within the base\<close>

lemma HasPrefix_sep: "HasPrefix p ''/'' \<longleftrightarrow> p \<noteq> [] \<and> hd p = CHR ''/''"
  by (cases p) (auto simp: HasPrefix_def)

lemma HasPrefix_dotdot_append: "HasPrefix (''..'' @ r) ''..''"
  by (simp add: HasPrefix_def)

lemma render_rooted: "render True cs = CHR ''/'' # join_sep cs"
  by (simp add: render_def)

lemma Clean_rooted:
  assumes "p \<noteq> []" "hd p = CHR ''/''"
  shows "\<exists>cs. canon True cs \<and> Clean p = CHR ''/'' # join_sep cs"
  using Clean_render [of p] assms by (simp add: render_rooted)

lemma Abs_rooted:
  assumes "wd_absolute wd" "Abs wd p = Inr a"
  shows "\<exists>cs. canon True cs \<and> a = CHR ''/'' # join_sep cs"
proof (cases "IsAbs p")
  case True
  then have "p \<noteq> []" "hd p = CHR ''/''" by (simp_all add: IsAbs_def HasPrefix_sep)
  from Clean_rooted [OF this] True assms(2) show ?thesis by (auto simp: Abs_def)
next
  case False
  with assms(2) obtain w where w: "wd = Inr w" "a = Join w p"
    by (auto simp: Abs_def split: sum.splits)
  with assms(1) have "w \<noteq> []" "hd w = CHR ''/''"
    by (simp_all add: wd_absolute_def IsAbs_def HasPrefix_sep)
  then have "w @ ''/'' @ p \<noteq> []" "hd (w @ ''/'' @ p) = CHR ''/''" by simp_all
  from Clean_rooted [OF this] w(2) \<open>w \<noteq> []\<close> show ?thesis by (simp add: Join_def)
qed

lemma Abs_returns:
  assumes "wd_absolute wd"
  shows "(\<exists>err. Abs wd p = Inl err) \<or> (\<exists>a. Abs wd p = Inr a)"
  by (cases "Abs wd p") auto

lemma Rel_rooted:
  assumes cs: "canon True cs" and ds: "canon True ds"
    and a: "a = CHR ''/'' # join_sep cs" and b: "b = CHR ''/'' # join_sep ds"
  shows "(\<exists>err. Rel a b = Some (Inl err)) \<or>
         (\<exists>r. Rel a b = Some (Inr r) \<and> (HasPrefix r ''..'' \<or> within a b))"
proof (cases "b = a")
  case True
  have "within a a" by (simp add: within_def)
  with True show ?thesis by (simp add: Rel_def)
next
  case False
  have ca: "Clean a = a" and cb: "Clean b = b"
    using Clean_render_id [OF cs] Clean_render_id [OF ds] a b by (simp_all add: render_rooted)
  have nd: "a \<noteq> ''.''" using a by simp
  have pa: "HasPrefix a ''/''" and pb: "HasPrefix b ''/''" using a b by (simp_all add: HasPrefix_sep)
  from False a b have diff: "join_sep cs \<noteq> join_sep ds" by auto
  have nt: "no_trail (join_sep cs)" "no_trail (join_sep ds)"
    using join_sep_no_trail [OF cs] join_sep_no_trail [OF ds] by (simp_all add: no_trail_def)
  have unfold1: "rel_loop a b = rel_loop (join_sep cs) (join_sep ds)"
    by (subst rel_loop.simps) (simp add: a b)
  from rel_loop_terminates [OF nt diff] obtain y where y: "rel_loop a b = Some y"
    using unfold1 by auto
  obtain brest bcur trest where yy: "y = (brest, bcur, trest)" by (cases y)
  from rel_loop_result [OF y] have post: "elem trest \<noteq> elem brest" "bcur = elem brest"
      "brest = [] \<longrightarrow> follows a b trest"
    unfolding yy loop_post_def by simp_all
  have rel: "Rel a b =
      (if bcur = ''..'' then
         Some (Inl (errorString (''Rel: can't make '' @ b @ '' relative to '' @ a)))
       else if brest \<noteq> [] then
         Some (Inr (''..'' @ concat (replicate (count_list brest CHR ''/'') ''/..'')
                    @ (if trest \<noteq> [] then ''/'' @ trest else [])))
       else Some (Inr trest))"
    using False nd pa pb by (simp add: Rel_def ca cb y yy Let_def)
  show ?thesis
  proof (cases "bcur = ''..''")
    case True
    with rel show ?thesis by simp
  next
    case nb: False
    show ?thesis
    proof (cases "brest \<noteq> []")
      case True
      with nb rel HasPrefix_dotdot_append show ?thesis by simp
    next
      case False
      with post(3) have "follows a b trest" by simp
      moreover have "a \<noteq> []" using a by simp
      ultimately have "within a b" by (rule follows_within)
      with False nb rel show ?thesis by simp
    qed
  qed
qed

text \<open>
  Claim C4. Let \<^verbatim>\<open>os.Getwd\<close> fail or return an absolute path, and let the base directory be
  non-empty. Then \<^verbatim>\<open>SanitizePath(p, base)\<close> returns, and either it returns an error, or it
  returns the cleaned path and the canonical form of what it returns (\<^verbatim>\<open>filepath.Abs\<close> of
  it) lies within the canonical base: the canonical base is a prefix of it that ends at
  the end of an element. So every \<open>p\<close> whose canonical form escapes the base is rejected
  with an error.
\<close>

theorem SanitizePath_within_base:
  assumes "wd_absolute wd" "baseDir \<noteq> []"
  shows "(\<exists>err. SanitizePath wd p baseDir = Some (Inl err)) \<or>
         (\<exists>absBase absPath.
            SanitizePath wd p baseDir = Some (Inr (Clean p)) \<and>
            Abs wd baseDir = Inr absBase \<and> Abs wd (Clean p) = Inr absPath \<and>
            within absBase absPath)"
proof (cases "Abs wd baseDir")
  case (Inl err)
  with assms(2) show ?thesis by (simp add: SanitizePath_def)
next
  case base: (Inr absBase)
  show ?thesis
  proof (cases "Abs wd (Clean p)")
    case (Inl err)
    with base assms(2) show ?thesis by (simp add: SanitizePath_def)
  next
    case path: (Inr absPath)
    from Abs_rooted [OF assms(1) base] obtain cs where
      cs: "canon True cs" "absBase = CHR ''/'' # join_sep cs" by blast
    from Abs_rooted [OF assms(1) path] obtain ds where
      ds: "canon True ds" "absPath = CHR ''/'' # join_sep ds" by blast
    from Rel_rooted [OF cs(1) ds(1) cs(2) ds(2)] show ?thesis
    proof
      assume "\<exists>err. Rel absBase absPath = Some (Inl err)"
      with base path assms(2) show ?thesis by (auto simp: SanitizePath_def)
    next
      assume "\<exists>r. Rel absBase absPath = Some (Inr r) \<and> (HasPrefix r ''..'' \<or> within absBase absPath)"
      then obtain r where r: "Rel absBase absPath = Some (Inr r)"
        "HasPrefix r ''..'' \<or> within absBase absPath" by blast
      show ?thesis
      proof (cases "HasPrefix r ''..''")
        case True
        with r(1) base path assms(2) show ?thesis by (simp add: SanitizePath_def)
      next
        case False
        with r(2) have "within absBase absPath" by simp
        with False r(1) base path assms(2) show ?thesis by (simp add: SanitizePath_def)
      qed
    qed
  qed
qed

lemma accepted_example:
  "SanitizePath (Inr ''/home/u'') ''/var/lib/db-backup/backups/../test.sql'' ''/var/lib/db-backup''
     = Some (Inr ''/var/lib/db-backup/test.sql'')"
  by code_simp

lemma rejected_example:
  "SanitizePath (Inr ''/home/u'') ''/var/lib/../../../etc/passwd'' ''/var/lib/db-backup''
     = Some (Inl (errorString ''path traversal detected: path must be within /var/lib/db-backup''))"
  by code_simp

lemma Abs_examples:
  "Abs (Inr ''/home/u'') ''/var/lib/db-backup'' = Inr ''/var/lib/db-backup''"
  "Abs (Inr ''/home/u'') ''/var/lib/db-backup/test.sql'' = Inr ''/var/lib/db-backup/test.sql''"
  "Clean ''/var/lib/db-backup/backups/../test.sql'' = ''/var/lib/db-backup/test.sql''"
  by code_simp+

theorem SanitizePath_within_base_witness:
  "wd_absolute (Inr ''/home/u'') \<and> ''/var/lib/db-backup'' \<noteq> [] \<and>
   SanitizePath (Inr ''/home/u'') ''/var/lib/db-backup/backups/../test.sql'' ''/var/lib/db-backup''
     = Some (Inr ''/var/lib/db-backup/test.sql'') \<and>
   within ''/var/lib/db-backup'' ''/var/lib/db-backup/test.sql''"
proof -
  have wd: "wd_absolute (Inr ''/home/u'')" by (simp add: wd_absolute_def IsAbs_def HasPrefix_def)
  have ne: "''/var/lib/db-backup'' \<noteq> []" by simp
  from SanitizePath_within_base [OF wd ne, of "''/var/lib/db-backup/backups/../test.sql''"]
  have "within ''/var/lib/db-backup'' ''/var/lib/db-backup/test.sql''"
    by (simp add: accepted_example Abs_examples)
  with wd accepted_example show ?thesis by simp
qed

end
